theory Spec2Isabelle
  imports Main "HOL-Library.Multiset"
begin

section \<open>Python values, dictionaries and exceptions\<close>

text \<open>
  The script \<^verbatim>\<open>seller.py\<close> moves values of a few Python types around: strings, integers
  and \<^verbatim>\<open>None\<close> (what \<^verbatim>\<open>dict.get\<close> returns for a missing key). Strings are modelled as
  their UTF-8 bytes. \<^verbatim>\<open>price_conversion\<close> inspects ASCII characters only (\<^verbatim>\<open>.\<close> and the
  digits), and no byte of a multi-byte UTF-8 sequence is an ASCII byte, so splitting at
  \<^verbatim>\<open>.\<close> and dropping non-digits give the same result on bytes as on code points.
  \<^verbatim>\<open>int\<close> looks at code points, so its model decodes the bytes first. Floats and booleans
  are not modelled.

  The exceptions are those the script can meet. All but the last are instances of
  \<^verbatim>\<open>Exception\<close>; \<^verbatim>\<open>KeyboardInterrupt\<close> is a \<^verbatim>\<open>BaseException\<close> only, which a call to
  the outside world may raise when the user interrupts the run.
\<close>

datatype error =
    HTTPError int
  | ReadTimeout
  | ConnectionError
  | EnvError string
  | ValueError
  | TypeError
  | AttributeError
  | IndexError
  | OtherError string
  | KeyboardInterrupt


datatype pyval = PNone | PInt int | PStr string

type_synonym dict = "(string \<times> pyval) list"

text \<open>\<^verbatim>\<open>d.get(k)\<close>: the value stored under \<open>k\<close>, \<^verbatim>\<open>None\<close> when the key is missing.\<close>

definition dict_get :: "dict \<Rightarrow> string \<Rightarrow> pyval" where
  "dict_get d k = (case map_of d k of None \<Rightarrow> PNone | Some v \<Rightarrow> v)"

text \<open>The column names of the supplier's sheet, as the UTF-8 bytes of the Cyrillic literals
  of the source (code, quantity, price).\<close>

definition key_code :: string where
  "key_code = [CHR 0xD0, CHR 0x9A, CHR 0xD0, CHR 0xBE, CHR 0xD0, CHR 0xB4]"

definition key_quantity :: string where
  "key_quantity = [CHR 0xD0, CHR 0x9A, CHR 0xD0, CHR 0xBE, CHR 0xD0, CHR 0xBB, CHR 0xD0, CHR 0xB8,
     CHR 0xD1, CHR 0x87, CHR 0xD0, CHR 0xB5, CHR 0xD1, CHR 0x81, CHR 0xD1, CHR 0x82, CHR 0xD0,
     CHR 0xB2, CHR 0xD0, CHR 0xBE]"

definition key_price :: string where
  "key_price = [CHR 0xD0, CHR 0xA6, CHR 0xD0, CHR 0xB5, CHR 0xD0, CHR 0xBD, CHR 0xD0, CHR 0xB0]"

subsection \<open>\<^verbatim>\<open>str\<close> and \<^verbatim>\<open>int\<close>\<close>

definition is_digit :: "char \<Rightarrow> bool" where
  "is_digit c = (c \<in> set ''0123456789'')"

definition digit_val :: "char \<Rightarrow> nat" where
  "digit_val c = of_char c - 48"

fun str_nat :: "nat \<Rightarrow> string" where
  "str_nat n =
     (if n < 10 then [''0123456789'' ! n]
      else str_nat (n div 10) @ [''0123456789'' ! (n mod 10)])"

definition str_int :: "int \<Rightarrow> string" where
  "str_int i = (if i < 0 then CHR ''-'' # str_nat (nat (- i)) else str_nat (nat i))"

text \<open>
  CPython converts between an integer and its decimal text only up to
  \<^verbatim>\<open>sys.int_max_str_digits\<close> digits, 4300 unless the interpreter is configured otherwise;
  beyond that both \<^verbatim>\<open>str\<close> and \<^verbatim>\<open>int\<close> raise \<^verbatim>\<open>ValueError\<close>. The sign does not count.
\<close>

definition int_max_str_digits :: nat where
  "int_max_str_digits = 4300"

fun py_str :: "pyval \<Rightarrow> error + string" where
  "py_str PNone = Inr ''None''"
| "py_str (PInt i) =
     (if int_max_str_digits < length (str_nat (nat \<bar>i\<bar>)) then Inl ValueError
      else Inr (str_int i))"
| "py_str (PStr s) = Inr s"

text \<open>
  \<^verbatim>\<open>int(s)\<close> for a string works on code points, so the bytes are decoded first. A byte
  list that is not well-formed UTF-8 stands for no Python string; it is given
  \<^verbatim>\<open>ValueError\<close>.
\<close>

definition continuation :: "int \<Rightarrow> bool" where
  "continuation b = (0x80 \<le> b \<and> b < 0xC0)"

fun utf8_decode :: "int list \<Rightarrow> int list option" where
  "utf8_decode [] = Some []"
| "utf8_decode (b # bs) =
     (if b < 0x80 then map_option ((#) b) (utf8_decode bs)
      else if 0xC0 \<le> b \<and> b < 0xE0 then
        (case bs of
           c1 # r \<Rightarrow>
             (let cp = (b - 0xC0) * 64 + (c1 - 0x80) in
              if continuation c1 \<and> 0x80 \<le> cp then map_option ((#) cp) (utf8_decode r)
              else None)
         | _ \<Rightarrow> None)
      else if 0xE0 \<le> b \<and> b < 0xF0 then
        (case bs of
           c1 # c2 # r \<Rightarrow>
             (let cp = ((b - 0xE0) * 64 + (c1 - 0x80)) * 64 + (c2 - 0x80) in
              if continuation c1 \<and> continuation c2 \<and> 0x800 \<le> cp
                 \<and> \<not> (0xD800 \<le> cp \<and> cp < 0xE000)
              then map_option ((#) cp) (utf8_decode r)
              else None)
         | _ \<Rightarrow> None)
      else if 0xF0 \<le> b \<and> b < 0xF8 then
        (case bs of
           c1 # c2 # c3 # r \<Rightarrow>
             (let cp = (((b - 0xF0) * 64 + (c1 - 0x80)) * 64 + (c2 - 0x80)) * 64 + (c3 - 0x80) in
              if continuation c1 \<and> continuation c2 \<and> continuation c3
                 \<and> 0x10000 \<le> cp \<and> cp \<le> 0x10FFFF
              then map_option ((#) cp) (utf8_decode r)
              else None)
         | _ \<Rightarrow> None)
      else None)"

text \<open>
  Before it parses, \<^verbatim>\<open>int\<close> rewrites the string to ASCII
  (\<^verbatim>\<open>_PyUnicode_TransformDecimalAndSpaceToASCII\<close>): a code point below 127 stays, white
  space of other scripts becomes a blank, a decimal digit of another script becomes the
  ASCII digit of its value, anything else becomes \<^verbatim>\<open>?\<close>. The tables are those of
  Unicode 14.0 (CPython 3.11): the white space from U+0080 up, and the digit zero of every
  run of ten decimal digits from U+0080 up.
\<close>

definition unicode_spaces :: "int list" where
  "unicode_spaces =
     [0x85, 0xA0, 0x1680, 0x2000, 0x2001, 0x2002, 0x2003, 0x2004,
      0x2005, 0x2006, 0x2007, 0x2008, 0x2009, 0x200A, 0x2028, 0x2029,
      0x202F, 0x205F, 0x3000]"

definition decimal_zeros :: "int list" where
  "decimal_zeros =
     [0x660, 0x6F0, 0x7C0, 0x966, 0x9E6, 0xA66, 0xAE6, 0xB66,
      0xBE6, 0xC66, 0xCE6, 0xD66, 0xDE6, 0xE50, 0xED0, 0xF20,
      0x1040, 0x1090, 0x17E0, 0x1810, 0x1946, 0x19D0, 0x1A80, 0x1A90,
      0x1B50, 0x1BB0, 0x1C40, 0x1C50, 0xA620, 0xA8D0, 0xA900, 0xA9D0,
      0xA9F0, 0xAA50, 0xABF0, 0xFF10, 0x104A0, 0x10D30, 0x11066, 0x110F0,
      0x11136, 0x111D0, 0x112F0, 0x11450, 0x114D0, 0x11650, 0x116C0, 0x11730,
      0x118E0, 0x11950, 0x11C50, 0x11D50, 0x11DA0, 0x16A60, 0x16AC0, 0x16B50,
      0x1D7CE, 0x1D7D8, 0x1D7E2, 0x1D7EC, 0x1D7F6, 0x1E140, 0x1E2F0, 0x1E950,
      0x1FBF0]"

definition decimal_value :: "int \<Rightarrow> int option" where
  "decimal_value cp =
     (case filter (\<lambda>z. z \<le> cp \<and> cp < z + 10) decimal_zeros of
        [] \<Rightarrow> None
      | z # _ \<Rightarrow> Some (cp - z))"

definition to_ascii :: "int \<Rightarrow> char" where
  "to_ascii cp =
     (if cp < 127 then char_of cp
      else if cp \<in> set unicode_spaces then CHR '' ''
      else (case decimal_value cp of Some d \<Rightarrow> char_of (48 + d) | None \<Rightarrow> CHR ''?''))"

text \<open>
  The parser (\<^verbatim>\<open>PyLong_FromString\<close>, base 10) skips the white space of C
  (\<^verbatim>\<open>Py_ISSPACE\<close>: tab to carriage return, and the blank) at both ends, takes one optional
  sign, then decimal digits, where a single underscore may stand between two digits. It
  counts the digits against the limit. Anything else raises \<^verbatim>\<open>ValueError\<close>.
\<close>

definition is_space :: "char \<Rightarrow> bool" where
  "is_space c = (c \<in> set [CHR 0x09, CHR 0x0A, CHR 0x0B, CHR 0x0C, CHR 0x0D, CHR 0x20])"

definition strip :: "string \<Rightarrow> string" where
  "strip s = rev (dropWhile is_space (rev (dropWhile is_space s)))"

fun digits_rest :: "nat \<Rightarrow> string \<Rightarrow> nat option" where
  "digits_rest acc [] = Some acc"
| "digits_rest acc [c] = (if is_digit c then Some (10 * acc + digit_val c) else None)"
| "digits_rest acc (c # d # ds) =
     (if c = CHR ''_'' then
        (if is_digit d then digits_rest (10 * acc + digit_val d) ds else None)
      else if is_digit c then digits_rest (10 * acc + digit_val c) (d # ds)
      else None)"

definition digits :: "string \<Rightarrow> nat option" where
  "digits s =
     (case s of
        [] \<Rightarrow> None
      | c # cs \<Rightarrow>
          if is_digit c \<and> length (filter is_digit s) \<le> int_max_str_digits
          then digits_rest (digit_val c) cs
          else None)"

definition literal :: "string \<Rightarrow> error + int" where
  "literal s =
     (case strip s of
        [] \<Rightarrow> Inl ValueError
      | c # cs \<Rightarrow>
          (if c = CHR ''-'' then
             (case digits cs of None \<Rightarrow> Inl ValueError | Some n \<Rightarrow> Inr (- int n))
           else if c = CHR ''+'' then
             (case digits cs of None \<Rightarrow> Inl ValueError | Some n \<Rightarrow> Inr (int n))
           else (case digits (c # cs) of None \<Rightarrow> Inl ValueError | Some n \<Rightarrow> Inr (int n))))"

definition int_of_str :: "string \<Rightarrow> error + int" where
  "int_of_str s =
     (case utf8_decode (map of_char s) of
        None \<Rightarrow> Inl ValueError
      | Some cps \<Rightarrow> literal (map to_ascii cps))"

fun py_int :: "pyval \<Rightarrow> error + int" where
  "py_int PNone = Inl TypeError"
| "py_int (PInt i) = Inr i"
| "py_int (PStr s) = int_of_str s"

section \<open>Price conversion\<close>

text \<open>\<^verbatim>\<open>s.split(".")\<close>: the pieces of \<open>s\<close> between the separators; never an empty list.\<close>

fun split :: "char \<Rightarrow> string \<Rightarrow> string list" where
  "split sep [] = [[]]"
| "split sep (c # cs) =
     (if c = sep then [] # split sep cs
      else (case split sep cs of [] \<Rightarrow> [[c]] | p # ps \<Rightarrow> (c # p) # ps))"

text \<open>
  \<^verbatim>\<open>re.sub("[^0-9]", "", price.split(".")[0])\<close>. The argument comes from \<^verbatim>\<open>watch.get\<close>, so
  it is a Python value: anything but a string has no \<^verbatim>\<open>split\<close> and raises
  \<^verbatim>\<open>AttributeError\<close>, as the docstring says. Index 0 of an empty list would raise
  \<^verbatim>\<open>IndexError\<close>.
\<close>

fun price_conversion :: "pyval \<Rightarrow> error + string" where
  "price_conversion (PStr price) =
     (case split CHR ''.'' price of
        [] \<Rightarrow> Inl IndexError
      | p # _ \<Rightarrow> Inr (filter is_digit p))"
| "price_conversion _ = Inl AttributeError"

section \<open>Chunking\<close>

text \<open>
  \<^verbatim>\<open>range(start, stop, step)\<close> for a step other than 0, as the list of its values, and the
  slice \<^verbatim>\<open>lst[a:b]\<close> with Python's treatment of negative and out-of-range bounds.
\<close>

function py_range :: "int \<Rightarrow> int \<Rightarrow> int \<Rightarrow> int list" where
  "py_range i stop step =
     (if 0 < step \<and> i < stop then i # py_range (i + step) stop step
      else if step < 0 \<and> stop < i then i # py_range (i + step) stop step
      else [])"
  by pat_completeness auto
termination
  by (relation "measure (\<lambda>(i, stop, step). nat (if 0 < step then stop - i else i - stop))") auto

declare py_range.simps [simp del]

definition slice_bound :: "nat \<Rightarrow> int \<Rightarrow> nat" where
  "slice_bound len a = (if a < 0 then nat (max (a + int len) 0) else min (nat a) len)"

definition py_slice :: "'a list \<Rightarrow> int \<Rightarrow> int \<Rightarrow> 'a list" where
  "py_slice lst a b =
     (let lo = slice_bound (length lst) a; hi = slice_bound (length lst) b
      in take (hi - lo) (drop lo lst))"

text \<open>
  \<^verbatim>\<open>divide\<close> is a generator; every caller forces it with \<^verbatim>\<open>list(...)\<close>, so the model
  returns the list of the slices it yields. \<^verbatim>\<open>range\<close> raises \<^verbatim>\<open>ValueError\<close> for step 0.
\<close>

definition divide_list :: "'a list \<Rightarrow> int \<Rightarrow> error + 'a list list" where
  "divide_list lst n =
     (if n = 0 then Inl ValueError
      else Inr (map (\<lambda>i. py_slice lst i (i + n)) (py_range 0 (int (length lst)) n)))"

section \<open>Building the stock and price updates\<close>

text \<open>
  Both builders read the caller's list \<^verbatim>\<open>offer_ids\<close>, and \<^verbatim>\<open>create_stocks\<close> also removes
  from it. The list object is therefore threaded through as state: each function returns
  its result (or the exception it raises) together with the contents of the list object
  when it ends. An exception does not undo the removals made before it.

  The first loop of \<^verbatim>\<open>create_stocks\<close>: \<open>stocks\<close> and \<open>offer_ids\<close> are the two lists
  it appends to and removes from. \<^verbatim>\<open>x in offer_ids\<close> and \<^verbatim>\<open>offer_ids.remove(x)\<close> compare
  with \<^verbatim>\<open>==\<close>; \<^verbatim>\<open>remove\<close> deletes the first equal element. The source writes
  \<^verbatim>\<open>str(watch.get("..."))\<close> for the code three times; the calls give the same result, so
  the first one decides whether the row raises.
\<close>

fun create_stocks_rows ::
  "dict list \<Rightarrow> dict list \<Rightarrow> pyval list \<Rightarrow> (error + dict list) \<times> pyval list" where
  "create_stocks_rows [] stocks offer_ids = (Inr stocks, offer_ids)"
| "create_stocks_rows (watch # rest) stocks offer_ids =
     (case py_str (dict_get watch key_code) of
        Inl e \<Rightarrow> (Inl e, offer_ids)
      | Inr code \<Rightarrow>
          if PStr code \<in> set offer_ids then
            (case py_str (dict_get watch key_quantity) of
               Inl e \<Rightarrow> (Inl e, offer_ids)
             | Inr count' \<Rightarrow>
                 (case (if count' = ''>10'' then Inr 100
                        else if count' = ''1'' then Inr 0
                        else py_int (dict_get watch key_quantity)) of
                    Inl e \<Rightarrow> (Inl e, offer_ids)
                  | Inr stock \<Rightarrow>
                      create_stocks_rows rest
                        (stocks @ [[(''offer_id'', PStr code), (''stock'', PInt stock)]])
                        (remove1 (PStr code) offer_ids)))
          else create_stocks_rows rest stocks offer_ids)"

definition create_stocks :: "dict list \<Rightarrow> pyval list \<Rightarrow> (error + dict list) \<times> pyval list" where
  "create_stocks watch_remnants offer_ids =
     (case create_stocks_rows watch_remnants [] offer_ids of
        (Inl e, offer_ids') \<Rightarrow> (Inl e, offer_ids')
      | (Inr stocks, offer_ids') \<Rightarrow>
          (Inr (stocks @ map (\<lambda>offer_id. [(''offer_id'', offer_id), (''stock'', PInt 0)]) offer_ids'),
           offer_ids'))"

fun create_prices_rows ::
  "dict list \<Rightarrow> dict list \<Rightarrow> pyval list \<Rightarrow> (error + dict list) \<times> pyval list" where
  "create_prices_rows [] prices offer_ids = (Inr prices, offer_ids)"
| "create_prices_rows (watch # rest) prices offer_ids =
     (case py_str (dict_get watch key_code) of
        Inl e \<Rightarrow> (Inl e, offer_ids)
      | Inr code \<Rightarrow>
          if PStr code \<in> set offer_ids then
            (case price_conversion (dict_get watch key_price) of
               Inl e \<Rightarrow> (Inl e, offer_ids)
             | Inr p \<Rightarrow>
                 create_prices_rows rest
                   (prices @ [[(''auto_action_enabled'', PStr ''UNKNOWN''),
                               (''currency_code'', PStr ''RUB''),
                               (''offer_id'', PStr code),
                               (''old_price'', PStr ''0''),
                               (''price'', PStr p)]])
                   offer_ids)
          else create_prices_rows rest prices offer_ids)"

definition create_prices :: "dict list \<Rightarrow> pyval list \<Rightarrow> (error + dict list) \<times> pyval list" where
  "create_prices watch_remnants offer_ids = create_prices_rows watch_remnants [] offer_ids"

section \<open>The outside world: HTTP, files, environment\<close>

text \<open>
  A call that touches the outside world takes the state of the world and returns the new
  one, with either the exception raised or the value returned.
\<close>

type_synonym ('a, 'w) io = "'w \<Rightarrow> (error + 'a) \<times> 'w"

definition io_return :: "'a \<Rightarrow> ('a, 'w) io" where
  "io_return x w = (Inr x, w)"

definition io_raise :: "error \<Rightarrow> ('a, 'w) io" where
  "io_raise e w = (Inl e, w)"

definition io_bind :: "('a, 'w) io \<Rightarrow> ('a \<Rightarrow> ('b, 'w) io) \<Rightarrow> ('b, 'w) io" where
  "io_bind m f w = (case m w of (Inl e, w') \<Rightarrow> (Inl e, w') | (Inr x, w') \<Rightarrow> f x w')"

text \<open>
  What \<^verbatim>\<open>requests\<close> hands back: the status code, the outcome of \<^verbatim>\<open>response.json()\<close> (it
  raises on a body that is not JSON) and the raw content. \<^verbatim>\<open>raise_for_status\<close> raises
  \<^verbatim>\<open>HTTPError\<close> for the status codes 400 to 599.
\<close>

record 'j response =
  status_code :: int
  json :: "error + 'j"
  content :: string

definition raise_for_status :: "'j response \<Rightarrow> error + unit" where
  "raise_for_status response =
     (if 400 \<le> status_code response \<and> status_code response < 600
      then Inl (HTTPError (status_code response)) else Inr ())"

text \<open>
  The listing endpoint answers with an object whose \<^verbatim>\<open>result\<close> holds \<^verbatim>\<open>items\<close>,
  \<^verbatim>\<open>total\<close> and \<^verbatim>\<open>last_id\<close>. A missing \<^verbatim>\<open>result\<close> or \<^verbatim>\<open>items\<close> is \<^verbatim>\<open>None\<close> in Python.
\<close>

record product_page =
  page_items :: "dict list option"
  page_total :: pyval
  page_last_id :: pyval

record listing =
  result :: "product_page option"

datatype payload =
    ProductListPayload string pyval int
  | PricesPayload "dict list"
  | StocksPayload "dict list"

record request =
  url :: string
  headers :: "(string \<times> string) list"
  payload :: payload

definition get_product_list ::
  "(request \<Rightarrow> (listing response, 'w) io) \<Rightarrow> pyval \<Rightarrow> string \<Rightarrow> string
     \<Rightarrow> (product_page option, 'w) io" where
  "get_product_list post last_id client_id seller_token =
     io_bind
       (post \<lparr>url = ''https://api-seller.ozon.ru/v2/product/list'',
              headers = [(''Client-Id'', client_id), (''Api-Key'', seller_token)],
              payload = ProductListPayload ''ALL'' last_id 1000\<rparr>)
       (\<lambda>response.
          case raise_for_status response of
            Inl e \<Rightarrow> io_raise e
          | Inr _ \<Rightarrow>
              (case json response of
                 Inl e \<Rightarrow> io_raise e
               | Inr response_object \<Rightarrow> io_return (result response_object)))"

definition update_price ::
  "(request \<Rightarrow> ('j response, 'w) io) \<Rightarrow> dict list \<Rightarrow> string \<Rightarrow> string \<Rightarrow> ('j, 'w) io" where
  "update_price post prices client_id seller_token =
     io_bind
       (post \<lparr>url = ''https://api-seller.ozon.ru/v1/product/import/prices'',
              headers = [(''Client-Id'', client_id), (''Api-Key'', seller_token)],
              payload = PricesPayload prices\<rparr>)
       (\<lambda>response.
          case raise_for_status response of
            Inl e \<Rightarrow> io_raise e
          | Inr _ \<Rightarrow> (case json response of Inl e \<Rightarrow> io_raise e | Inr j \<Rightarrow> io_return j))"

definition update_stocks ::
  "(request \<Rightarrow> ('j response, 'w) io) \<Rightarrow> dict list \<Rightarrow> string \<Rightarrow> string \<Rightarrow> ('j, 'w) io" where
  "update_stocks post stocks client_id seller_token =
     io_bind
       (post \<lparr>url = ''https://api-seller.ozon.ru/v1/product/import/stocks'',
              headers = [(''Client-Id'', client_id), (''Api-Key'', seller_token)],
              payload = StocksPayload stocks\<rparr>)
       (\<lambda>response.
          case raise_for_status response of
            Inl e \<Rightarrow> io_raise e
          | Inr _ \<Rightarrow> (case json response of Inl e \<Rightarrow> io_raise e | Inr j \<Rightarrow> io_return j))"

text \<open>
  The \<^verbatim>\<open>while True\<close> loop of \<^verbatim>\<open>get_offer_ids\<close> has no bound, so it is a partial function:
  \<open>None\<close> is the run that never leaves the loop. \<^verbatim>\<open>some_prod.get\<close> on \<^verbatim>\<open>None\<close> raises
  \<^verbatim>\<open>AttributeError\<close>, \<^verbatim>\<open>extend(None)\<close> raises \<^verbatim>\<open>TypeError\<close>.
\<close>

partial_function (option) get_offer_ids_loop ::
  "(request \<Rightarrow> (listing response, 'w) io) \<Rightarrow> string \<Rightarrow> string \<Rightarrow> pyval \<Rightarrow> dict list \<Rightarrow> 'w
     \<Rightarrow> ((error + dict list) \<times> 'w) option" where
  "get_offer_ids_loop post client_id seller_token last_id product_list w =
     (case get_product_list post last_id client_id seller_token w of
        (Inl e, w') \<Rightarrow> Some (Inl e, w')
      | (Inr None, w') \<Rightarrow> Some (Inl AttributeError, w')
      | (Inr (Some some_prod), w') \<Rightarrow>
          (case page_items some_prod of
             None \<Rightarrow> Some (Inl TypeError, w')
           | Some its \<Rightarrow>
               (let product_list' = product_list @ its in
                if page_total some_prod = PInt (int (length product_list'))
                then Some (Inr product_list', w')
                else get_offer_ids_loop post client_id seller_token
                       (page_last_id some_prod) product_list' w')))"

definition get_offer_ids ::
  "(request \<Rightarrow> (listing response, 'w) io) \<Rightarrow> string \<Rightarrow> string
     \<Rightarrow> 'w \<Rightarrow> ((error + pyval list) \<times> 'w) option" where
  "get_offer_ids post client_id seller_token w =
     (case get_offer_ids_loop post client_id seller_token (PStr '''') [] w of
        None \<Rightarrow> None
      | Some (Inl e, w') \<Rightarrow> Some (Inl e, w')
      | Some (Inr product_list, w') \<Rightarrow>
          Some (Inr (map (\<lambda>product. dict_get product ''offer_id'') product_list), w'))"




text \<open>A \<^verbatim>\<open>for\<close> loop whose body is a call to the outside; the first exception ends it.\<close>

fun for_each :: "('a \<Rightarrow> ('b, 'w) io) \<Rightarrow> 'a list \<Rightarrow> (unit, 'w) io" where
  "for_each f [] w = (Inr (), w)"
| "for_each f (x # xs) w =
     (case f x w of (Inl e, w') \<Rightarrow> (Inl e, w') | (Inr _, w') \<Rightarrow> for_each f xs w')"

section \<open>The entry point\<close>








section \<open>Reference definitions for the statements\<close>

text \<open>The slices of \<open>xs\<close> of length \<open>m\<close>, first to last, by recursion on the rest of the list.\<close>

function chunks :: "nat \<Rightarrow> 'a list \<Rightarrow> 'a list list" where
  "chunks m xs = (if m = 0 \<or> xs = [] then [] else take m xs # chunks m (drop m xs))"
  by pat_completeness auto
termination
  by (relation "measure (\<lambda>(m, xs). length xs)") auto

declare chunks.simps [simp del]

text \<open>The text of a value, which is what \<^verbatim>\<open>str\<close> returns when it returns; a value is
  castable when \<^verbatim>\<open>str\<close> returns for it.\<close>

fun str_text :: "pyval \<Rightarrow> string" where
  "str_text PNone = ''None''"
| "str_text (PInt i) = str_int i"
| "str_text (PStr s) = s"

definition castable :: "pyval \<Rightarrow> bool" where
  "castable v = (case py_str v of Inl e \<Rightarrow> False | Inr s \<Rightarrow> True)"

text \<open>The string-cast code of a supplier row, and the offer id of an update.\<close>

definition row_code :: "dict \<Rightarrow> pyval" where
  "row_code watch = PStr (str_text (dict_get watch key_code))"

definition offer_id_of :: "dict \<Rightarrow> pyval" where
  "offer_id_of e = dict_get e ''offer_id''"

text \<open>The quantity rule in the words of the specification: \<^verbatim>\<open>">10"\<close> gives 100,
  \<^verbatim>\<open>"1"\<close> gives 0, anything else is parsed as an integer.\<close>

definition stock_rule :: "pyval \<Rightarrow> error + int" where
  "stock_rule q =
     (if str_text q = ''>10'' then Inr 100 else if str_text q = ''1'' then Inr 0 else py_int q)"

text \<open>A quantity is accepted when it can be cast to a string and the rule gives it a
  stock.\<close>

definition quantity_ok :: "pyval \<Rightarrow> bool" where
  "quantity_ok q = (castable q \<and> (case stock_rule q of Inl e \<Rightarrow> False | Inr n \<Rightarrow> True))"

definition stock_update :: "dict \<Rightarrow> int \<Rightarrow> dict" where
  "stock_update watch n = [(''offer_id'', row_code watch), (''stock'', PInt n)]"

definition zero_stock :: "pyval \<Rightarrow> dict" where
  "zero_stock offer_id = [(''offer_id'', offer_id), (''stock'', PInt 0)]"

definition price_update :: "dict \<Rightarrow> string \<Rightarrow> dict" where
  "price_update watch p =
     [(''auto_action_enabled'', PStr ''UNKNOWN''), (''currency_code'', PStr ''RUB''),
      (''offer_id'', row_code watch), (''old_price'', PStr ''0''), (''price'', PStr p)]"

text \<open>
  The rows that pass the test \<^verbatim>\<open>str(code) in offer_ids\<close> when the loop of
  \<^verbatim>\<open>create_stocks\<close> reaches them, each one consuming the first occurrence of its code, and
  the list that is left when the codes of those rows have been removed one by one.
\<close>

fun matched_rows :: "dict list \<Rightarrow> pyval list \<Rightarrow> dict list" where
  "matched_rows [] ids = []"
| "matched_rows (watch # rest) ids =
     (if row_code watch \<in> set ids then watch # matched_rows rest (remove1 (row_code watch) ids)
      else matched_rows rest ids)"

definition remaining_ids :: "dict list \<Rightarrow> pyval list \<Rightarrow> pyval list" where
  "remaining_ids rows ids = fold remove1 (map row_code (matched_rows rows ids)) ids"

text \<open>
  The rows whose entry \<^verbatim>\<open>create_stocks\<close> has appended, and whose code it has removed, when
  its first loop ends: the matched rows up to the first row that makes it raise.
\<close>

fun consumed_rows :: "dict list \<Rightarrow> pyval list \<Rightarrow> dict list" where
  "consumed_rows [] ids = []"
| "consumed_rows (watch # rest) ids =
     (if \<not> castable (dict_get watch key_code) then []
      else if row_code watch \<in> set ids then
        (if quantity_ok (dict_get watch key_quantity)
         then watch # consumed_rows rest (remove1 (row_code watch) ids)
         else [])
      else consumed_rows rest ids)"

text \<open>
  One pass through the body of the loop of \<^verbatim>\<open>get_offer_ids\<close> up to its exit test: the
  total reported by the page, the items accumulated, and the next \<^verbatim>\<open>last_id\<close>. Then the
  state after \<open>n + 1\<close> page fetches in a row, whatever the exit test says.
\<close>

definition fetch_page ::
  "(request \<Rightarrow> (listing response, 'w) io) \<Rightarrow> string \<Rightarrow> string \<Rightarrow> pyval \<Rightarrow> dict list \<Rightarrow> 'w
     \<Rightarrow> (error + pyval \<times> dict list \<times> pyval) \<times> 'w" where
  "fetch_page post client_id seller_token last_id product_list w =
     (case get_product_list post last_id client_id seller_token w of
        (Inl e, w') \<Rightarrow> (Inl e, w')
      | (Inr None, w') \<Rightarrow> (Inl AttributeError, w')
      | (Inr (Some some_prod), w') \<Rightarrow>
          (case page_items some_prod of
             None \<Rightarrow> (Inl TypeError, w')
           | Some its \<Rightarrow>
               (Inr (page_total some_prod, product_list @ its, page_last_id some_prod), w')))"

fun fetches ::
  "(request \<Rightarrow> (listing response, 'w) io) \<Rightarrow> string \<Rightarrow> string \<Rightarrow> nat \<Rightarrow> pyval \<Rightarrow> dict list \<Rightarrow> 'w
     \<Rightarrow> (error + pyval \<times> dict list \<times> pyval) \<times> 'w" where
  "fetches post c t 0 last_id product_list w = fetch_page post c t last_id product_list w"
| "fetches post c t (Suc n) last_id product_list w =
     (case fetch_page post c t last_id product_list w of
        (Inl e, w') \<Rightarrow> (Inl e, w')
      | (Inr (tot, product_list', last_id'), w') \<Rightarrow> fetches post c t n last_id' product_list' w')"

definition fetch_ok :: "(error + pyval \<times> dict list \<times> pyval) \<times> 'w \<Rightarrow> bool" where
  "fetch_ok r = (case r of (Inl e, w) \<Rightarrow> False | (Inr p, w) \<Rightarrow> True)"

definition count_matches :: "(error + pyval \<times> dict list \<times> pyval) \<times> 'w \<Rightarrow> bool" where
  "count_matches r =
     (case r of
        (Inl e, w) \<Rightarrow> False
      | (Inr (tot, product_list, last_id), w) \<Rightarrow> tot = PInt (int (length product_list)))"

definition accumulated :: "(error + pyval \<times> dict list \<times> pyval) \<times> 'w \<Rightarrow> dict list" where
  "accumulated r =
     (case r of (Inl e, w) \<Rightarrow> [] | (Inr (tot, product_list, last_id), w) \<Rightarrow> product_list)"

text \<open>How the loop ends when it stops after the fetches that gave \<open>r\<close>: with the exception,
  or with the items accumulated.\<close>

definition loop_outcome ::
  "(error + pyval \<times> dict list \<times> pyval) \<times> 'w \<Rightarrow> (error + dict list) \<times> 'w" where
  "loop_outcome r =
     (case r of
        (Inl e, w) \<Rightarrow> (Inl e, w)
      | (Inr (tot, product_list, last_id), w) \<Rightarrow> (Inr product_list, w))"

section \<open>Mock worlds\<close>

text \<open>
  The world of a mock is the number of calls made so far. The first mock serves two pages
  (2 and 3 items, total 5) and refuses any further call; the second serves 2 items with a
  reported total of 3 on every call; the third serves a first page and answers 500
  afterwards; the fourth answers every request with a given status.
  The last is a machine without network: every request raises \<^verbatim>\<open>ConnectionError\<close>, and
  its world is the list of the lines printed so far.
\<close>

definition ok_response :: "'j \<Rightarrow> 'j response" where
  "ok_response j = \<lparr>status_code = 200, json = Inr j, content = ''''\<rparr>"

definition mock_page :: "string list \<Rightarrow> int \<Rightarrow> string \<Rightarrow> listing response" where
  "mock_page ids tot nxt =
     ok_response \<lparr>result = Some \<lparr>page_items = Some (map (\<lambda>i. [(''offer_id'', PStr i)]) ids),
                                  page_total = PInt tot, page_last_id = PStr nxt\<rparr>\<rparr>"

definition two_page_post :: "request \<Rightarrow> (listing response, nat) io" where
  "two_page_post req calls =
     (if calls = 0 then (Inr (mock_page [''a1'', ''a2''] 5 ''p1''), Suc calls)
      else if calls = 1 then (Inr (mock_page [''b1'', ''b2'', ''b3''] 5 ''p2''), Suc calls)
      else (Inl ConnectionError, Suc calls))"

definition overshoot_post :: "request \<Rightarrow> (listing response, nat) io" where
  "overshoot_post req calls = (Inr (mock_page [''a1'', ''a2''] 3 ''p''), Suc calls)"

definition second_call_fails :: "request \<Rightarrow> (listing response, nat) io" where
  "second_call_fails req calls =
     (if calls = 0 then (Inr (mock_page [''a1'', ''a2''] 5 ''p1''), Suc calls)
      else (Inr \<lparr>status_code = 500, json = Inr \<lparr>result = None\<rparr>, content = ''''\<rparr>, Suc calls))"

definition status_post :: "int \<Rightarrow> 'j \<Rightarrow> request \<Rightarrow> ('j response, nat) io" where
  "status_post code j req calls =
     (Inr \<lparr>status_code = code, json = Inr j, content = ''''\<rparr>, Suc calls)"


section \<open>Sample data\<close>

text \<open>
  The two supplier rows and the offer ids of the specification's examples (the first price
  is \<^verbatim>\<open>5'990.00\<close> followed by the currency in UTF-8), the stock updates expected for them,
  and a feed with an integer code, a padded number and a row that is not on sale.
\<close>

definition spec_rows :: "dict list" where
  "spec_rows =
     [[(key_code, PStr ''123''), (key_quantity, PStr ''>10''),
       (key_price, PStr (''5'990.00 '' @
          [CHR 0xD1, CHR 0x80, CHR 0xD1, CHR 0x83, CHR 0xD0, CHR 0xB1, CHR ''.'']))],
      [(key_code, PStr ''456''), (key_quantity, PStr ''1''),
       (key_price, PStr (''7500.50 '' @
          [CHR 0xD1, CHR 0x80, CHR 0xD1, CHR 0x83, CHR 0xD0, CHR 0xB1, CHR ''.'']))]]"

definition spec_ids :: "pyval list" where
  "spec_ids = [PStr ''123'', PStr ''456'', PStr ''789'']"

definition spec_stocks :: "dict list" where
  "spec_stocks =
     [[(''offer_id'', PStr ''123''), (''stock'', PInt 100)],
      [(''offer_id'', PStr ''456''), (''stock'', PInt 0)],
      [(''offer_id'', PStr ''789''), (''stock'', PInt 0)]]"

definition feed_rows :: "dict list" where
  "feed_rows =
     [[(key_code, PInt 70), (key_quantity, PInt 4)],
      [(key_code, PStr ''71''), (key_quantity, PStr '' 12 '')],
      [(key_code, PStr ''99''), (key_quantity, PStr ''n/a'')],
      [(key_code, PStr ''72''), (key_quantity, PInt 1)]]"

definition feed_ids :: "pyval list" where
  "feed_ids = [PStr ''72'', PStr ''71'', PStr ''70'', PStr ''73'']"

section \<open>Price conversion: what it returns\<close>

lemma split_hd: "\<exists>ps. split sep s = takeWhile (\<lambda>c. c \<noteq> sep) s # ps"
  by (induction s) auto

lemma price_conversion_str:
  "price_conversion (PStr s) = Inr (filter is_digit (takeWhile (\<lambda>c. c \<noteq> CHR ''.'') s))"
proof -
  obtain ps where "split CHR ''.'' s = takeWhile (\<lambda>c. c \<noteq> CHR ''.'') s # ps"
    using split_hd by blast
  then show ?thesis by simp
qed

text \<open>
  Claim C4. On every string, \<^verbatim>\<open>price_conversion\<close> returns (and never raises) the part of
  the input before the first \<^verbatim>\<open>.\<close> with every character that is not a digit removed. The
  two prices of the specification (with the currency suffix in UTF-8) give \<^verbatim>\<open>5990\<close> and
  \<^verbatim>\<open>7500\<close>, and an input with no digit before the first \<^verbatim>\<open>.\<close> gives the empty string.
\<close>

theorem price_conversion_digits_before_dot:
  "price_conversion (PStr s) = Inr (filter is_digit (takeWhile (\<lambda>c. c \<noteq> CHR ''.'') s))
   \<and> price_conversion (PStr (''5'990.00 '' @
         [CHR 0xD1, CHR 0x80, CHR 0xD1, CHR 0x83, CHR 0xD0, CHR 0xB1, CHR ''.''])) = Inr ''5990''
   \<and> price_conversion (PStr (''7500.50 '' @
         [CHR 0xD1, CHR 0x80, CHR 0xD1, CHR 0x83, CHR 0xD0, CHR 0xB1, CHR ''.''])) = Inr ''7500''
   \<and> price_conversion (PStr ''n/a'') = Inr []"
  using price_conversion_str [of s] by (simp add: is_digit_def)

section \<open>Chunking: what \<^verbatim>\<open>divide\<close> yields\<close>

lemma py_slice_chunk:
  assumes "0 \<le> i" "0 < n"
  shows "py_slice lst i (i + n) = take (nat n) (drop (nat i) lst)"
  using assms by (auto simp: py_slice_def slice_bound_def Let_def min_def nat_add_distrib)

lemma range_chunks:
  "0 < n \<Longrightarrow> 0 \<le> i \<Longrightarrow>
     map (\<lambda>j. py_slice lst j (j + n)) (py_range i (int (length lst)) n)
     = chunks (nat n) (drop (nat i) lst)"
proof (induction i "int (length lst)" n rule: py_range.induct)
  case (1 i step)
  show ?case
  proof (cases "i < int (length lst)")
    case True
    have d: "drop (nat (i + step)) lst = drop (nat step) (drop (nat i) lst)"
      using 1 by (simp add: nat_add_distrib add.commute)
    have ne: "drop (nat i) lst \<noteq> []" using True 1 by simp
    have "map (\<lambda>j. py_slice lst j (j + step)) (py_range (i + step) (int (length lst)) step)
          = chunks (nat step) (drop (nat (i + step)) lst)"
      using 1 True by simp
    then show ?thesis
      using True 1(3,4) ne
      by (subst py_range.simps, subst chunks.simps) (simp add: py_slice_chunk d)
  next
    case False
    then have "drop (nat i) lst = []" using 1 by simp
    then show ?thesis using False 1(3)
      by (subst py_range.simps, subst chunks.simps) simp
  qed
qed

lemma divide_chunks: "0 < n \<Longrightarrow> divide_list lst n = Inr (chunks (nat n) lst)"
  using range_chunks [of n 0 lst] by (simp add: divide_list_def)

lemma concat_chunks: "0 < m \<Longrightarrow> concat (chunks m xs) = xs"
proof (induction m xs rule: chunks.induct)
  case (1 m xs)
  then show ?case by (subst chunks.simps) auto
qed

lemma chunks_nth:
  "0 < m \<Longrightarrow> k < length (chunks m xs) \<Longrightarrow> chunks m xs ! k = take m (drop (k * m) xs)"
proof (induction m xs arbitrary: k rule: chunks.induct)
  case (1 m xs)
  show ?case
  proof (cases "xs = []")
    case True
    then show ?thesis using 1(3) by (simp add: chunks.simps)
  next
    case False
    have eq: "chunks m xs = take m xs # chunks m (drop m xs)"
      using False 1(2) by (subst chunks.simps) simp
    show ?thesis
    proof (cases k)
      case 0
      then show ?thesis using eq by simp
    next
      case (Suc k')
      then have "k' < length (chunks m (drop m xs))" using 1(3) eq by simp
      then have "chunks m (drop m xs) ! k' = take m (drop (k' * m) (drop m xs))"
        using 1(1) False 1(2) by simp
      then show ?thesis using eq Suc by (simp add: add.commute)
    qed
  qed
qed

lemma length_chunks: "0 < m \<Longrightarrow> length (chunks m xs) = (length xs + m - 1) div m"
proof (induction m xs rule: chunks.induct)
  case (1 m xs)
  show ?case
  proof (cases "xs = []")
    case True
    then show ?thesis using 1(2) by (simp add: chunks.simps)
  next
    case False
    then have l: "0 < length xs" by simp
    have eq: "length (chunks m xs) = Suc (length (chunks m (drop m xs)))"
      using False 1(2) by (subst chunks.simps) simp
    have ih: "length (chunks m (drop m xs)) = (length (drop m xs) + m - 1) div m"
      using 1(1) [OF _ 1(2)] False 1(2) by blast
    show ?thesis
    proof (cases "m \<le> length xs")
      case True
      define a where "a = length (drop m xs) + m - 1"
      have "length xs + m - 1 = a + m"
        using l 1(2) True unfolding a_def length_drop by arith
      then have "(length xs + m - 1) div m = Suc (a div m)"
        using 1(2) by (simp only: div_add_self2 Suc_eq_plus1)
      then show ?thesis using eq ih a_def by (simp only:)
    next
      case False
      define b where "b = length xs - 1"
      have "length xs + m - 1 = b + m" and "b < m"
        using l False unfolding b_def by arith+
      then have "(length xs + m - 1) div m = Suc 0"
        using 1(2) by (simp only: div_add_self2) simp
      moreover have "length (chunks m (drop m xs)) = 0"
        using False by (simp add: chunks.simps)
      ultimately show ?thesis using eq by (simp only:)
    qed
  qed
qed

lemma chunks_nonempty: "c \<in> set (chunks m xs) \<Longrightarrow> c \<noteq> []"
proof (induction m xs rule: chunks.induct)
  case (1 m xs)
  show ?case
  proof (cases "m = 0 \<or> xs = []")
    case True
    then show ?thesis using 1(2) by (simp add: chunks.simps)
  next
    case False
    then have "chunks m xs = take m xs # chunks m (drop m xs)"
      by (subst chunks.simps) simp
    then show ?thesis using 1 False by auto
  qed
qed

lemma chunks_start:
  assumes "0 < m" "k < length (chunks m xs)"
  shows "k * m < length xs"
proof -
  have "chunks m xs ! k \<noteq> []"
    using assms(2) chunks_nonempty nth_mem by blast
  then have "take m (drop (k * m) xs) \<noteq> []"
    using chunks_nth [OF assms] by simp
  then show ?thesis by simp
qed

lemma chunks_lengths:
  assumes "0 < m" "k < length (chunks m xs)"
  shows "0 < length (chunks m xs ! k)" "length (chunks m xs ! k) \<le> m"
    "Suc k < length (chunks m xs) \<Longrightarrow> length (chunks m xs ! k) = m"
proof -
  have n: "chunks m xs ! k = take m (drop (k * m) xs)"
    using chunks_nth [OF assms] .
  show "0 < length (chunks m xs ! k)"
    using chunks_start [OF assms] assms(1) by (simp add: n)
  show "length (chunks m xs ! k) \<le> m"
    by (simp add: n)
  show "length (chunks m xs ! k) = m" if "Suc k < length (chunks m xs)"
  proof -
    have "Suc k * m < length xs"
      using chunks_start [OF assms(1) that] .
    then show ?thesis by (simp add: n)
  qed
qed

lemma divide_general:
  assumes "1 \<le> n"
  shows "\<exists>cs. divide_list lst n = Inr cs \<and> concat cs = lst
           \<and> length cs = (length lst + nat n - 1) div nat n
           \<and> (\<forall>k. k < length cs \<longrightarrow> cs ! k = take (nat n) (drop (k * nat n) lst))
           \<and> (\<forall>k. k < length cs \<longrightarrow> 0 < length (cs ! k) \<and> length (cs ! k) \<le> nat n)
           \<and> (\<forall>k. Suc k < length cs \<longrightarrow> length (cs ! k) = nat n)"
proof -
  have m: "0 < nat n" and p: "0 < n" using assms by simp_all
  have "divide_list lst n = Inr (chunks (nat n) lst)"
    using divide_chunks [OF p] .
  moreover have "concat (chunks (nat n) lst) = lst"
    using concat_chunks [OF m] .
  moreover have "length (chunks (nat n) lst) = (length lst + nat n - 1) div nat n"
    using length_chunks [OF m] .
  moreover have "\<forall>k. k < length (chunks (nat n) lst)
                   \<longrightarrow> chunks (nat n) lst ! k = take (nat n) (drop (k * nat n) lst)"
    using chunks_nth [OF m] by blast
  moreover have "\<forall>k. k < length (chunks (nat n) lst)
                   \<longrightarrow> 0 < length (chunks (nat n) lst ! k) \<and> length (chunks (nat n) lst ! k) \<le> nat n"
    using chunks_lengths(1,2) [OF m] by blast
  moreover have "\<forall>k. Suc k < length (chunks (nat n) lst)
                   \<longrightarrow> length (chunks (nat n) lst ! k) = nat n"
    using chunks_lengths(3) [OF m] by (meson Suc_lessD)
  ultimately show ?thesis by blast
qed

lemma divide_examples:
  "divide_list [1, 2, 3, 4 :: int] 2 = Inr [[1, 2], [3, 4]]"
  "divide_list [1, 2, 3 :: int] 2 = Inr [[1, 2], [3]]"
  by (simp_all add: divide_chunks chunks.simps)

text \<open>
  Claim C5. For a chunk size \<open>n \<ge> 1\<close>, \<^verbatim>\<open>divide\<close> raises nothing and yields, in order,
  the slices of \<open>lst\<close> that start at the multiples of \<open>n\<close> and have length \<open>n\<close>: slice
  \<open>k\<close> is \<open>take n (drop (k * n) lst)\<close>, every slice is non-empty and at most \<open>n\<close> long,
  every slice but the last is exactly \<open>n\<close> long, and the slices concatenated are \<open>lst\<close>.
  \<^verbatim>\<open>divide([1,2,3,4], 2)\<close> yields \<^verbatim>\<open>[[1,2],[3,4]]\<close> and \<^verbatim>\<open>divide([1,2,3], 2)\<close> yields
  \<^verbatim>\<open>[[1,2],[3]]\<close>. Nothing is stated for \<open>n \<le> 0\<close>.
\<close>

theorem divide_contiguous_slices:
  "(1 \<le> n \<longrightarrow>
      (\<exists>cs. divide_list lst n = Inr cs \<and> concat cs = lst
         \<and> length cs = (length lst + nat n - 1) div nat n
         \<and> (\<forall>k. k < length cs \<longrightarrow> cs ! k = take (nat n) (drop (k * nat n) lst))
         \<and> (\<forall>k. k < length cs \<longrightarrow> 0 < length (cs ! k) \<and> length (cs ! k) \<le> nat n)
         \<and> (\<forall>k. Suc k < length cs \<longrightarrow> length (cs ! k) = nat n)))
   \<and> divide_list [1, 2, 3, 4 :: int] 2 = Inr [[1, 2], [3, 4]]
   \<and> divide_list [1, 2, 3 :: int] 2 = Inr [[1, 2], [3]]"
  using divide_general [of n lst] divide_examples by blast

theorem divide_contiguous_slices_witness:
  "(1 :: int) \<le> 2
   \<and> (\<exists>cs. divide_list ''abcde'' 2 = Inr cs \<and> concat cs = ''abcde'' \<and> length cs = 3
         \<and> cs ! 2 = ''e'')"
proof -
  have "\<exists>cs. divide_list ''abcde'' 2 = Inr cs \<and> concat cs = ''abcde''
          \<and> length cs = (length ''abcde'' + nat 2 - 1) div nat 2
          \<and> (\<forall>k. k < length cs \<longrightarrow> cs ! k = take (nat 2) (drop (k * nat 2) ''abcde''))"
    using divide_contiguous_slices [of 2 "''abcde''"] by auto
  then obtain cs where cs: "divide_list ''abcde'' 2 = Inr cs" "concat cs = ''abcde''"
    "length cs = (length ''abcde'' + nat 2 - 1) div nat 2"
    "\<forall>k. k < length cs \<longrightarrow> cs ! k = take (nat 2) (drop (k * nat 2) ''abcde'')"
    by blast
  have l: "length cs = 3" using cs(3) by simp
  then have "cs ! 2 = take (nat 2) (drop (2 * nat 2) ''abcde'')" using cs(4) by simp
  then have "cs ! 2 = ''e''" by simp
  then show ?thesis using cs(1,2) l by simp
qed

section \<open>Stock updates: the loop of \<^verbatim>\<open>create_stocks\<close>\<close>

declare str_nat.simps [simp del]

lemma py_str_cases: "py_str v = (if castable v then Inr (str_text v) else Inl ValueError)"
  by (cases v) (simp_all add: castable_def)

lemma castable_cases:
  "castable PNone"
  "castable (PStr s)"
  "castable (PInt i) \<longleftrightarrow> length (str_nat (nat \<bar>i\<bar>)) \<le> int_max_str_digits"
  by (simp_all add: castable_def)

lemma create_stocks_rows_step:
  "create_stocks_rows (watch # rest) stocks ids =
     (if \<not> castable (dict_get watch key_code) then (Inl ValueError, ids)
      else if row_code watch \<in> set ids then
        (if \<not> castable (dict_get watch key_quantity) then (Inl ValueError, ids)
         else case stock_rule (dict_get watch key_quantity) of
           Inl e \<Rightarrow> (Inl e, ids)
         | Inr n \<Rightarrow> create_stocks_rows rest (stocks @ [stock_update watch n])
                      (remove1 (row_code watch) ids))
      else create_stocks_rows rest stocks ids)"
  by (simp add: py_str_cases row_code_def stock_rule_def stock_update_def split: sum.splits)

declare create_stocks_rows.simps(2) [simp del]

lemma remaining_ids_Nil: "remaining_ids [] ids = ids"
  by (simp add: remaining_ids_def)

lemma remaining_ids_Cons:
  "remaining_ids (watch # rest) ids =
     (if row_code watch \<in> set ids then remaining_ids rest (remove1 (row_code watch) ids)
      else remaining_ids rest ids)"
  by (simp add: remaining_ids_def)

lemma matched_rows_subset:
  "w \<in> set (matched_rows rows ids) \<Longrightarrow> w \<in> set rows \<and> row_code w \<in> set ids"
proof (induction rows arbitrary: ids)
  case Nil
  then show ?case by simp
next
  case (Cons watch rest)
  show ?case
  proof (cases "row_code watch \<in> set ids")
    case True
    then have "w = watch \<or> w \<in> set (matched_rows rest (remove1 (row_code watch) ids))"
      using Cons.prems by simp
    then show ?thesis
    proof
      assume "w = watch"
      then show ?thesis using True by simp
    next
      assume "w \<in> set (matched_rows rest (remove1 (row_code watch) ids))"
      then have "w \<in> set rest \<and> row_code w \<in> set (remove1 (row_code watch) ids)"
        using Cons.IH by blast
      then show ?thesis using notin_set_remove1 by fastforce
    qed
  next
    case False
    then show ?thesis using Cons by simp
  qed
qed

lemma matched_rows_covers:
  "w \<in> set rows \<Longrightarrow> row_code w \<in> set ids
     \<Longrightarrow> \<exists>w' \<in> set (matched_rows rows ids). row_code w' = row_code w"
proof (induction rows arbitrary: ids)
  case Nil
  then show ?case by simp
next
  case (Cons watch rest)
  show ?case
  proof (cases "row_code watch = row_code w")
    case True
    then show ?thesis using Cons.prems by auto
  next
    case False
    then have "w \<in> set rest" using Cons.prems by auto
    moreover have "row_code w \<in> set (remove1 (row_code watch) ids)"
      using False Cons.prems(2) by simp
    ultimately show ?thesis using Cons.IH [of ids] Cons.IH [of "remove1 (row_code watch) ids"]
        Cons.prems(2) by simp
  qed
qed

lemma matched_remaining_mset:
  "mset (map row_code (matched_rows rows ids)) + mset (remaining_ids rows ids) = mset ids"
proof (induction rows arbitrary: ids)
  case Nil
  then show ?case by (simp add: remaining_ids_Nil)
next
  case (Cons watch rest)
  show ?case
  proof (cases "row_code watch \<in> set ids")
    case True
    have "mset (map row_code (matched_rows rest (remove1 (row_code watch) ids)))
            + mset (remaining_ids rest (remove1 (row_code watch) ids))
          = mset ids - {#row_code watch#}"
      using Cons.IH [of "remove1 (row_code watch) ids"] by simp
    then show ?thesis using True by (simp add: remaining_ids_Cons)
  next
    case False
    then show ?thesis using Cons.IH [of ids] by (simp add: remaining_ids_Cons)
  qed
qed

lemma remaining_ids_keeps:
  "i \<in> set ids \<Longrightarrow> i \<notin> row_code ` set rows \<Longrightarrow> i \<in> set (remaining_ids rows ids)"
proof (induction rows arbitrary: ids)
  case Nil
  then show ?case by (simp add: remaining_ids_Nil)
next
  case (Cons watch rest)
  then have "i \<noteq> row_code watch" and r: "i \<notin> row_code ` set rest" by auto
  then have "i \<in> set (remove1 (row_code watch) ids)" using Cons.prems(1) by simp
  then show ?case using Cons.IH r Cons.prems(1) by (simp add: remaining_ids_Cons)
qed

text \<open>What the first loop returns when it raises nothing, for any starting \<open>stocks\<close>.\<close>

lemma create_stocks_rows_Inr:
  "create_stocks_rows rows stocks ids = (Inr out, ids')
     \<Longrightarrow> ids' = remaining_ids rows ids
         \<and> (\<exists>es. out = stocks @ es
               \<and> list_all2 (\<lambda>w e. \<exists>n. stock_rule (dict_get w key_quantity) = Inr n
                                        \<and> e = stock_update w n)
                    (matched_rows rows ids) es)"
proof (induction rows arbitrary: stocks ids)
  case Nil
  then show ?case by (simp add: remaining_ids_Nil)
next
  case (Cons watch rest)
  have c: "castable (dict_get watch key_code)"
  proof (rule ccontr)
    assume "\<not> castable (dict_get watch key_code)"
    then show False using Cons.prems by (simp add: create_stocks_rows_step)
  qed
  show ?case
  proof (cases "row_code watch \<in> set ids")
    case False
    then have "create_stocks_rows rest stocks ids = (Inr out, ids')"
      using Cons.prems c by (simp add: create_stocks_rows_step)
    then show ?thesis using Cons.IH False by (simp add: remaining_ids_Cons)
  next
    case True
    have q: "castable (dict_get watch key_quantity)"
    proof (rule ccontr)
      assume "\<not> castable (dict_get watch key_quantity)"
      then show False using Cons.prems c True by (simp add: create_stocks_rows_step)
    qed
    show ?thesis
    proof (cases "stock_rule (dict_get watch key_quantity)")
      case (Inl e)
      then show ?thesis using Cons.prems c q True by (simp add: create_stocks_rows_step)
    next
      case (Inr n)
      then have "create_stocks_rows rest (stocks @ [stock_update watch n])
                   (remove1 (row_code watch) ids) = (Inr out, ids')"
        using Cons.prems c q True by (simp add: create_stocks_rows_step)
      then obtain es where es: "ids' = remaining_ids rest (remove1 (row_code watch) ids)"
          "out = (stocks @ [stock_update watch n]) @ es"
          "list_all2 (\<lambda>w e. \<exists>n. stock_rule (dict_get w key_quantity) = Inr n
                              \<and> e = stock_update w n)
             (matched_rows rest (remove1 (row_code watch) ids)) es"
        using Cons.IH by blast
      have "list_all2 (\<lambda>w e. \<exists>n. stock_rule (dict_get w key_quantity) = Inr n
                              \<and> e = stock_update w n)
              (matched_rows (watch # rest) ids) (stock_update watch n # es)"
        using es(3) Inr True by simp
      moreover have "out = stocks @ (stock_update watch n # es)" using es(2) by simp
      ultimately show ?thesis using es(1) True by (auto simp: remaining_ids_Cons)
    qed
  qed
qed

text \<open>The first loop returns exactly when every code can be cast to a string and every
  row it matches has an accepted quantity.\<close>

lemma create_stocks_rows_total:
  "(\<exists>out ids'. create_stocks_rows rows stocks ids = (Inr out, ids'))
     \<longleftrightarrow> (\<forall>w \<in> set rows. castable (dict_get w key_code))
          \<and> (\<forall>w \<in> set (matched_rows rows ids). quantity_ok (dict_get w key_quantity))"
proof (induction rows arbitrary: stocks ids)
  case Nil
  then show ?case by simp
next
  case (Cons watch rest)
  show ?case
  proof (cases "castable (dict_get watch key_code)")
    case False
    then show ?thesis by (simp add: create_stocks_rows_step)
  next
    case c: True
    show ?thesis
    proof (cases "row_code watch \<in> set ids")
      case False
      then show ?thesis using c Cons.IH [of stocks ids] by (simp add: create_stocks_rows_step)
    next
      case True
      show ?thesis
      proof (cases "castable (dict_get watch key_quantity)")
        case False
        then show ?thesis using c True by (simp add: create_stocks_rows_step quantity_ok_def)
      next
        case q: True
        show ?thesis
        proof (cases "stock_rule (dict_get watch key_quantity)")
          case (Inl e)
          then show ?thesis
            using c q True by (simp add: create_stocks_rows_step quantity_ok_def)
        next
          case (Inr n)
          then show ?thesis
            using c q True
              Cons.IH [of "stocks @ [stock_update watch n]" "remove1 (row_code watch) ids"]
            by (simp add: create_stocks_rows_step quantity_ok_def)
        qed
      qed
    qed
  qed
qed

lemma create_stocks_cases:
  "(\<exists>e ids'. create_stocks rows ids = (Inl e, ids'))
     \<or> (\<exists>out ids'. create_stocks rows ids = (Inr out, ids'))"
  by (cases "create_stocks rows ids") (metis old.sum.exhaust)

lemma create_stocks_Inr_iff:
  "create_stocks rows ids = (Inr out, ids')
     \<longleftrightarrow> (\<exists>es. create_stocks_rows rows [] ids = (Inr es, ids')
               \<and> out = es @ map zero_stock ids')"
  by (auto simp: create_stocks_def zero_stock_def split: prod.splits sum.splits)

lemma create_stocks_Inr:
  assumes "create_stocks rows ids = (Inr out, ids')"
  shows "ids' = remaining_ids rows ids"
    and "\<exists>es. out = es @ map zero_stock ids'
           \<and> list_all2 (\<lambda>w e. \<exists>n. stock_rule (dict_get w key_quantity) = Inr n
                                    \<and> e = stock_update w n)
                (matched_rows rows ids) es"
proof -
  obtain es where es: "create_stocks_rows rows [] ids = (Inr es, ids')"
      "out = es @ map zero_stock ids'"
    using assms create_stocks_Inr_iff by blast
  show "ids' = remaining_ids rows ids"
    using create_stocks_rows_Inr [OF es(1)] by simp
  show "\<exists>es. out = es @ map zero_stock ids'
           \<and> list_all2 (\<lambda>w e. \<exists>n. stock_rule (dict_get w key_quantity) = Inr n
                                    \<and> e = stock_update w n)
                (matched_rows rows ids) es"
    using create_stocks_rows_Inr [OF es(1)] es(2) by auto
qed

lemma create_stocks_total:
  "(\<exists>out ids'. create_stocks rows ids = (Inr out, ids'))
     \<longleftrightarrow> (\<forall>w \<in> set rows. castable (dict_get w key_code))
          \<and> (\<forall>w \<in> set (matched_rows rows ids). quantity_ok (dict_get w key_quantity))"
proof -
  have "(\<exists>out ids'. create_stocks rows ids = (Inr out, ids'))
          \<longleftrightarrow> (\<exists>es ids'. create_stocks_rows rows [] ids = (Inr es, ids'))"
    using create_stocks_Inr_iff by blast
  then show ?thesis using create_stocks_rows_total [of rows "[]" ids] by simp
qed

text \<open>What \<^verbatim>\<open>create_stocks\<close> returns on a feed it accepts.\<close>

lemma create_stocks_returns:
  assumes "\<forall>w \<in> set rows. castable (dict_get w key_code)"
    and "\<forall>w \<in> set (matched_rows rows ids). quantity_ok (dict_get w key_quantity)"
  shows "\<exists>es. create_stocks rows ids
                = (Inr (es @ map zero_stock (remaining_ids rows ids)), remaining_ids rows ids)
           \<and> list_all2 (\<lambda>w e. \<exists>n. stock_rule (dict_get w key_quantity) = Inr n
                                    \<and> e = stock_update w n)
                (matched_rows rows ids) es"
proof -
  have "\<exists>out ids'. create_stocks rows ids = (Inr out, ids')"
    unfolding create_stocks_total using assms by (rule conjI)
  then obtain out ids' where a: "create_stocks rows ids = (Inr out, ids')"
    by (elim exE)
  have r: "ids' = remaining_ids rows ids"
    by (rule create_stocks_Inr(1) [OF a])
  obtain es where es: "out = es @ map zero_stock ids'"
      "list_all2 (\<lambda>w e. \<exists>n. stock_rule (dict_get w key_quantity) = Inr n
                          \<and> e = stock_update w n) (matched_rows rows ids) es"
    using create_stocks_Inr(2) [OF a] by (elim exE conjE)
  have "create_stocks rows ids
          = (Inr (es @ map zero_stock (remaining_ids rows ids)), remaining_ids rows ids)"
    using a es(1) r by simp
  then show ?thesis using es(2) by (intro exI conjI)
qed

lemma offer_id_of_simps:
  "offer_id_of (stock_update w n) = row_code w"
  "offer_id_of (zero_stock i) = i"
  "offer_id_of (price_update w p) = row_code w"
  by (simp_all add: offer_id_of_def stock_update_def zero_stock_def price_update_def dict_get_def)

lemma list_all2_offer_ids:
  "list_all2 (\<lambda>w e. \<exists>n. stock_rule (dict_get w key_quantity) = Inr n \<and> e = stock_update w n) ws es
     \<Longrightarrow> map offer_id_of es = map row_code ws"
  by (induction ws es rule: list_all2_induct) (auto simp: offer_id_of_simps)

lemma create_stocks_offer_ids:
  assumes "create_stocks rows ids = (Inr out, ids')"
  shows "map offer_id_of out
           = map row_code (matched_rows rows ids) @ remaining_ids rows ids"
proof -
  obtain es where es: "out = es @ map zero_stock ids'"
      "list_all2 (\<lambda>w e. \<exists>n. stock_rule (dict_get w key_quantity) = Inr n
                          \<and> e = stock_update w n) (matched_rows rows ids) es"
    using create_stocks_Inr(2) [OF assms] by blast
  have "map offer_id_of (map zero_stock ids') = ids'"
    by (induction ids') (simp_all add: offer_id_of_simps)
  then show ?thesis
    using es(1) list_all2_offer_ids [OF es(2)] create_stocks_Inr(1) [OF assms] by simp
qed

lemma create_stocks_mset:
  assumes "create_stocks rows ids = (Inr out, ids')"
  shows "mset (map offer_id_of out) = mset ids"
  using create_stocks_offer_ids [OF assms] matched_remaining_mset [of rows ids] by simp

lemma spec_stocks_run: "create_stocks spec_rows spec_ids = (Inr spec_stocks, [PStr ''789''])"
  by code_simp

text \<open>
  Claim C1, as amended. When \<^verbatim>\<open>create_stocks\<close> returns, every offer id has as many
  entries in the output as it has occurrences in the input list: the offer ids of the
  output, counted with repetition, are those of the input list. So the two sets of offer
  ids are equal, nothing is omitted, the output is as long as the input list, and it has
  no duplicate offer id when the input list has none. The entries come first from the rows
  matched, in order, then one zero-stock entry for each id left over; a matched row is a row
  of the feed whose code is in the list, and an id that is the code of no row gets a
  zero-stock entry.
\<close>

theorem create_stocks_covers_offer_ids:
  "create_stocks rows ids = (Inr out, ids') \<Longrightarrow>
     mset (map offer_id_of out) = mset ids
   \<and> set (map offer_id_of out) = set ids
   \<and> length out = length ids
   \<and> (distinct ids \<longrightarrow> distinct (map offer_id_of out))
   \<and> (\<exists>es. out = es @ map zero_stock ids'
          \<and> map offer_id_of es = map row_code (matched_rows rows ids))
   \<and> (\<forall>w \<in> set (matched_rows rows ids). w \<in> set rows \<and> row_code w \<in> set ids)
   \<and> (\<forall>i \<in> set ids. i \<notin> row_code ` set rows \<longrightarrow> zero_stock i \<in> set out)"
proof -
  assume a: "create_stocks rows ids = (Inr out, ids')"
  have m: "mset (map offer_id_of out) = mset ids"
    using create_stocks_mset [OF a] .
  have s: "set (map offer_id_of out) = set ids"
    using m mset_eq_setD by blast
  have l: "length out = length ids"
    using m mset_eq_length by fastforce
  have d: "distinct ids \<longrightarrow> distinct (map offer_id_of out)"
    using m mset_eq_imp_distinct_iff by blast
  obtain es where es: "out = es @ map zero_stock ids'"
      "list_all2 (\<lambda>w e. \<exists>n. stock_rule (dict_get w key_quantity) = Inr n
                          \<and> e = stock_update w n) (matched_rows rows ids) es"
    using create_stocks_Inr(2) [OF a] by blast
  have e: "\<exists>es. out = es @ map zero_stock ids'
             \<and> map offer_id_of es = map row_code (matched_rows rows ids)"
    using es(1) list_all2_offer_ids [OF es(2)] by blast
  have sub: "\<forall>w \<in> set (matched_rows rows ids). w \<in> set rows \<and> row_code w \<in> set ids"
    using matched_rows_subset by blast
  have z: "\<forall>i \<in> set ids. i \<notin> row_code ` set rows \<longrightarrow> zero_stock i \<in> set out"
  proof (intro ballI impI)
    fix i assume "i \<in> set ids" "i \<notin> row_code ` set rows"
    then have "i \<in> set ids'"
      using remaining_ids_keeps create_stocks_Inr(1) [OF a] by simp
    then show "zero_stock i \<in> set out" using es(1) by simp
  qed
  show ?thesis using m s l d e sub z by blast
qed

theorem create_stocks_covers_offer_ids_witness:
  "create_stocks spec_rows spec_ids = (Inr spec_stocks, [PStr ''789''])
   \<and> mset (map offer_id_of spec_stocks) = mset spec_ids
   \<and> distinct (map offer_id_of spec_stocks)
   \<and> zero_stock (PStr ''789'') \<in> set spec_stocks"
proof -
  have d: "distinct spec_ids" by (simp add: spec_ids_def)
  have i: "PStr ''789'' \<in> set spec_ids" by (simp add: spec_ids_def)
  have n: "PStr ''789'' \<notin> row_code ` set spec_rows"
    by (simp add: spec_rows_def row_code_def dict_get_def key_code_def)
  show ?thesis
    using create_stocks_covers_offer_ids [OF spec_stocks_run] spec_stocks_run d i n by blast
qed

text \<open>The claim as it was stated fails on a list that names an offer id twice: the output
  then has two entries for it.\<close>

theorem create_stocks_duplicate_offer_id:
  "create_stocks [] [PStr ''7'', PStr ''7'']
     = (Inr [[(''offer_id'', PStr ''7''), (''stock'', PInt 0)],
             [(''offer_id'', PStr ''7''), (''stock'', PInt 0)]], [PStr ''7'', PStr ''7''])
   \<and> \<not> distinct (map offer_id_of [[(''offer_id'', PStr ''7''), (''stock'', PInt 0)],
                                    [(''offer_id'', PStr ''7''), (''stock'', PInt 0)]])"
  by (simp add: create_stocks_def offer_id_of_def dict_get_def)

section \<open>The stock rule\<close>

text \<open>A feed of one row whose code is the only offer id.\<close>

lemma single_row_stock:
  assumes "castable q" and "stock_rule q = Inr n"
  shows "create_stocks [[(key_code, PStr c), (key_quantity, q)]] [PStr c]
           = (Inr [[(''offer_id'', PStr c), (''stock'', PInt n)]], [])"
  using assms
  by (simp add: create_stocks_def create_stocks_rows_step row_code_def dict_get_def
        stock_update_def castable_cases key_code_def key_quantity_def)

lemma spec_rows_matched:
  "matched_rows spec_rows spec_ids = spec_rows"
  "remaining_ids spec_rows spec_ids = [PStr ''789'']"
  by code_simp+

text \<open>
  Claim C3. On a feed where every code can be cast to a string and every matched row has
  an accepted quantity, \<^verbatim>\<open>create_stocks\<close> returns, and its output starts with one entry
  for each matched row, in order, made of the row's string-cast code and the stock that the
  rule gives for the row's quantity: 100 when the quantity reads \<^verbatim>\<open>>10\<close>, 0 when it reads
  \<^verbatim>\<open>1\<close>, and otherwise the integer the quantity parses to. The rest of the output are the
  zero-stock entries of the ids left over. Whenever it returns the output has this form.
  Every row whose code is in the list shares its code with a matched row, and every matched
  row is a row whose code is in the list. For a feed of one row whose code is the only
  offer id, the quantity \<^verbatim>\<open>>10\<close> gives the stock 100, the quantity \<^verbatim>\<open>1\<close> (string or
  integer) gives 0, and any other string that \<^verbatim>\<open>int\<close> accepts gives its value.
\<close>

theorem create_stocks_stock_rule:
  "((\<forall>w \<in> set rows. castable (dict_get w key_code))
      \<and> (\<forall>w \<in> set (matched_rows rows ids). quantity_ok (dict_get w key_quantity))
     \<longrightarrow> (\<exists>es. create_stocks rows ids
                  = (Inr (es @ map zero_stock (remaining_ids rows ids)), remaining_ids rows ids)
             \<and> list_all2 (\<lambda>w e. \<exists>n. stock_rule (dict_get w key_quantity) = Inr n
                                      \<and> e = [(''offer_id'', row_code w), (''stock'', PInt n)])
                  (matched_rows rows ids) es))
   \<and> (create_stocks rows ids = (Inr out, ids')
     \<longrightarrow> (\<exists>es. out = es @ map zero_stock ids'
             \<and> list_all2 (\<lambda>w e. \<exists>n. stock_rule (dict_get w key_quantity) = Inr n
                                      \<and> e = [(''offer_id'', row_code w), (''stock'', PInt n)])
                  (matched_rows rows ids) es))
   \<and> (\<forall>w \<in> set rows. row_code w \<in> set ids
          \<longrightarrow> (\<exists>w' \<in> set (matched_rows rows ids). row_code w' = row_code w))
   \<and> (\<forall>w \<in> set (matched_rows rows ids). w \<in> set rows \<and> row_code w \<in> set ids)
   \<and> (str_text q = ''>10'' \<longrightarrow> stock_rule q = Inr 100)
   \<and> (str_text q = ''1'' \<longrightarrow> stock_rule q = Inr 0)
   \<and> (str_text q \<noteq> ''>10'' \<and> str_text q \<noteq> ''1'' \<longrightarrow> stock_rule q = py_int q)
   \<and> create_stocks [[(key_code, PStr c), (key_quantity, PStr ''>10'')]] [PStr c]
       = (Inr [[(''offer_id'', PStr c), (''stock'', PInt 100)]], [])
   \<and> create_stocks [[(key_code, PStr c), (key_quantity, PStr ''1'')]] [PStr c]
       = (Inr [[(''offer_id'', PStr c), (''stock'', PInt 0)]], [])
   \<and> create_stocks [[(key_code, PStr c), (key_quantity, PInt 1)]] [PStr c]
       = (Inr [[(''offer_id'', PStr c), (''stock'', PInt 0)]], [])
   \<and> (s \<noteq> ''>10'' \<and> s \<noteq> ''1'' \<and> int_of_str s = Inr n
     \<longrightarrow> create_stocks [[(key_code, PStr c), (key_quantity, PStr s)]] [PStr c]
           = (Inr [[(''offer_id'', PStr c), (''stock'', PInt n)]], []))"
proof -
  have 1: "(\<forall>w \<in> set rows. castable (dict_get w key_code))
      \<and> (\<forall>w \<in> set (matched_rows rows ids). quantity_ok (dict_get w key_quantity))
     \<longrightarrow> (\<exists>es. create_stocks rows ids
                  = (Inr (es @ map zero_stock (remaining_ids rows ids)), remaining_ids rows ids)
             \<and> list_all2 (\<lambda>w e. \<exists>n. stock_rule (dict_get w key_quantity) = Inr n
                                      \<and> e = [(''offer_id'', row_code w), (''stock'', PInt n)])
                  (matched_rows rows ids) es)"
  proof
    assume h: "(\<forall>w \<in> set rows. castable (dict_get w key_code))
      \<and> (\<forall>w \<in> set (matched_rows rows ids). quantity_ok (dict_get w key_quantity))"
    show "\<exists>es. create_stocks rows ids
                  = (Inr (es @ map zero_stock (remaining_ids rows ids)), remaining_ids rows ids)
             \<and> list_all2 (\<lambda>w e. \<exists>n. stock_rule (dict_get w key_quantity) = Inr n
                                      \<and> e = [(''offer_id'', row_code w), (''stock'', PInt n)])
                  (matched_rows rows ids) es"
      using create_stocks_returns [OF conjunct1 [OF h] conjunct2 [OF h]]
      by (simp add: stock_update_def)
  qed
  have 2: "create_stocks rows ids = (Inr out, ids')
     \<longrightarrow> (\<exists>es. out = es @ map zero_stock ids'
             \<and> list_all2 (\<lambda>w e. \<exists>n. stock_rule (dict_get w key_quantity) = Inr n
                                      \<and> e = [(''offer_id'', row_code w), (''stock'', PInt n)])
                  (matched_rows rows ids) es)"
  proof
    assume a: "create_stocks rows ids = (Inr out, ids')"
    show "\<exists>es. out = es @ map zero_stock ids'
             \<and> list_all2 (\<lambda>w e. \<exists>n. stock_rule (dict_get w key_quantity) = Inr n
                                      \<and> e = [(''offer_id'', row_code w), (''stock'', PInt n)])
                  (matched_rows rows ids) es"
      using create_stocks_Inr(2) [OF a] by (simp add: stock_update_def)
  qed
  have 3: "\<forall>w \<in> set rows. row_code w \<in> set ids
              \<longrightarrow> (\<exists>w' \<in> set (matched_rows rows ids). row_code w' = row_code w)"
    using matched_rows_covers by blast
  have 4: "\<forall>w \<in> set (matched_rows rows ids). w \<in> set rows \<and> row_code w \<in> set ids"
    using matched_rows_subset by blast
  have 5: "str_text q = ''>10'' \<longrightarrow> stock_rule q = Inr 100"
    by (simp add: stock_rule_def)
  have 6: "str_text q = ''1'' \<longrightarrow> stock_rule q = Inr 0"
    by (simp add: stock_rule_def)
  have 7: "str_text q \<noteq> ''>10'' \<and> str_text q \<noteq> ''1'' \<longrightarrow> stock_rule q = py_int q"
    by (simp add: stock_rule_def)
  have 8: "create_stocks [[(key_code, PStr c), (key_quantity, PStr ''>10'')]] [PStr c]
       = (Inr [[(''offer_id'', PStr c), (''stock'', PInt 100)]], [])"
    by (rule single_row_stock) (simp_all add: castable_cases stock_rule_def)
  have 9: "create_stocks [[(key_code, PStr c), (key_quantity, PStr ''1'')]] [PStr c]
       = (Inr [[(''offer_id'', PStr c), (''stock'', PInt 0)]], [])"
    by (rule single_row_stock) (simp_all add: castable_cases stock_rule_def)
  have one: "str_int 1 = ''1''" "castable (PInt 1)"
    by code_simp+
  have 10: "create_stocks [[(key_code, PStr c), (key_quantity, PInt 1)]] [PStr c]
       = (Inr [[(''offer_id'', PStr c), (''stock'', PInt 0)]], [])"
    by (rule single_row_stock [OF one(2)]) (simp add: stock_rule_def one(1))
  have 11: "s \<noteq> ''>10'' \<and> s \<noteq> ''1'' \<and> int_of_str s = Inr n
     \<longrightarrow> create_stocks [[(key_code, PStr c), (key_quantity, PStr s)]] [PStr c]
           = (Inr [[(''offer_id'', PStr c), (''stock'', PInt n)]], [])"
  proof
    assume h: "s \<noteq> ''>10'' \<and> s \<noteq> ''1'' \<and> int_of_str s = Inr n"
    show "create_stocks [[(key_code, PStr c), (key_quantity, PStr s)]] [PStr c]
           = (Inr [[(''offer_id'', PStr c), (''stock'', PInt n)]], [])"
      using h by (intro single_row_stock) (simp_all add: castable_cases stock_rule_def)
  qed
  show ?thesis
    by (intro conjI)
       (rule 1, rule 2, rule 3, rule 4, rule 5, rule 6, rule 7, rule 8, rule 9, rule 10, rule 11)
qed

theorem create_stocks_stock_rule_witness:
  "create_stocks spec_rows spec_ids = (Inr spec_stocks, [PStr ''789''])
   \<and> spec_stocks = [[(''offer_id'', PStr ''123''), (''stock'', PInt 100)],
                     [(''offer_id'', PStr ''456''), (''stock'', PInt 0)]]
                    @ map zero_stock [PStr ''789'']
   \<and> matched_rows spec_rows spec_ids = spec_rows
   \<and> map (\<lambda>w. stock_rule (dict_get w key_quantity)) spec_rows = [Inr 100, Inr 0]
   \<and> (\<exists>es. create_stocks spec_rows spec_ids
              = (Inr (es @ map zero_stock (remaining_ids spec_rows spec_ids)),
                 remaining_ids spec_rows spec_ids)
         \<and> list_all2 (\<lambda>w e. \<exists>n. stock_rule (dict_get w key_quantity) = Inr n
                                  \<and> e = [(''offer_id'', row_code w), (''stock'', PInt n)])
              (matched_rows spec_rows spec_ids) es)"
proof -
  have h1: "\<forall>w \<in> set spec_rows. castable (dict_get w key_code)"
    by code_simp
  have h2: "\<forall>w \<in> set (matched_rows spec_rows spec_ids). quantity_ok (dict_get w key_quantity)"
    by code_simp
  have s: "spec_stocks = [[(''offer_id'', PStr ''123''), (''stock'', PInt 100)],
                          [(''offer_id'', PStr ''456''), (''stock'', PInt 0)]]
                         @ map zero_stock [PStr ''789'']"
    by code_simp
  have r: "map (\<lambda>w. stock_rule (dict_get w key_quantity)) spec_rows = [Inr 100, Inr 0]"
    by code_simp
  have e: "\<exists>es. create_stocks spec_rows spec_ids
              = (Inr (es @ map zero_stock (remaining_ids spec_rows spec_ids)),
                 remaining_ids spec_rows spec_ids)
         \<and> list_all2 (\<lambda>w e. \<exists>n. stock_rule (dict_get w key_quantity) = Inr n
                                  \<and> e = [(''offer_id'', row_code w), (''stock'', PInt n)])
              (matched_rows spec_rows spec_ids) es"
    by (rule create_stocks_stock_rule
               [of spec_rows spec_ids, THEN conjunct1, THEN mp, OF conjI [OF h1 h2]])
  show ?thesis
    by (intro conjI) (rule spec_stocks_run, rule s, rule spec_rows_matched(1), rule r, rule e)
qed

section \<open>When \<^verbatim>\<open>create_stocks\<close> raises\<close>

lemma quantity_ok_iff:
  "quantity_ok q \<longleftrightarrow>
     castable q \<and> (str_text q = ''>10'' \<or> str_text q = ''1'' \<or> (\<exists>n. py_int q = Inr n))"
  by (auto simp: quantity_ok_def stock_rule_def split: sum.splits)

lemma create_stocks_raises:
  "(\<exists>e ids'. create_stocks rows ids = (Inl e, ids'))
     \<longleftrightarrow> (\<exists>w \<in> set rows. \<not> castable (dict_get w key_code))
          \<or> (\<exists>w \<in> set (matched_rows rows ids). \<not> quantity_ok (dict_get w key_quantity))"
proof -
  have "(\<exists>e ids'. create_stocks rows ids = (Inl e, ids'))
          \<longleftrightarrow> \<not> (\<exists>out ids'. create_stocks rows ids = (Inr out, ids'))"
    using create_stocks_cases [of rows ids] by auto
  then show ?thesis unfolding create_stocks_total by blast
qed

lemma claimed_precondition_suffices:
  assumes "\<forall>w \<in> set rows. castable (dict_get w key_code)
             \<and> (row_code w \<in> set ids \<longrightarrow> quantity_ok (dict_get w key_quantity))"
  shows "\<exists>out ids'. create_stocks rows ids = (Inr out, ids')"
proof -
  have "\<forall>w \<in> set (matched_rows rows ids). quantity_ok (dict_get w key_quantity)"
  proof
    fix w assume "w \<in> set (matched_rows rows ids)"
    then have "w \<in> set rows \<and> row_code w \<in> set ids" by (rule matched_rows_subset)
    then show "quantity_ok (dict_get w key_quantity)" using assms by simp
  qed
  moreover have "\<forall>w \<in> set rows. castable (dict_get w key_code)"
    using assms by simp
  ultimately show ?thesis unfolding create_stocks_total by (intro conjI)
qed

lemma bad_quantity_runs:
  "\<not> quantity_ok (PStr ''>5'')" "\<not> quantity_ok (PStr '''')" "\<not> quantity_ok PNone"
  "create_stocks [[(key_code, PStr ''123''), (key_quantity, PStr ''>5'')]] [PStr ''123'']
     = (Inl ValueError, [PStr ''123''])"
  "create_stocks [[(key_code, PStr ''123''), (key_quantity, PStr '''')]] [PStr ''123'']
     = (Inl ValueError, [PStr ''123''])"
  by code_simp+

text \<open>
  Claim C10, as amended. \<^verbatim>\<open>create_stocks\<close> returns exactly when \<^verbatim>\<open>str\<close> accepts the
  code of every row and every row it matches (a row whose code is still in the list when
  the loop reaches it) has an accepted quantity: one that \<^verbatim>\<open>str\<close> can cast and that reads
  \<^verbatim>\<open>>10\<close>, reads \<^verbatim>\<open>1\<close> or is accepted by \<^verbatim>\<open>int\<close>. It raises exactly when some code
  cannot be cast or some matched row has another quantity. That the quantity of every row
  whose code is in the list is accepted is enough for it to return, but it is not needed.
  \<^verbatim>\<open>str\<close> accepts \<^verbatim>\<open>None\<close>, every string, and the integers of at most 4300 digits. The
  quantities \<^verbatim>\<open>>5\<close> and the empty string are not accepted, and a matched row carrying one
  of them makes the call raise \<^verbatim>\<open>ValueError\<close>.
\<close>

theorem create_stocks_total_iff_quantities_ok:
  "((\<exists>out ids'. create_stocks rows ids = (Inr out, ids'))
      \<longleftrightarrow> (\<forall>w \<in> set rows. castable (dict_get w key_code))
           \<and> (\<forall>w \<in> set (matched_rows rows ids). quantity_ok (dict_get w key_quantity)))
   \<and> ((\<exists>e ids'. create_stocks rows ids = (Inl e, ids'))
      \<longleftrightarrow> (\<exists>w \<in> set rows. \<not> castable (dict_get w key_code))
           \<or> (\<exists>w \<in> set (matched_rows rows ids). \<not> quantity_ok (dict_get w key_quantity)))
   \<and> ((\<forall>w \<in> set rows. castable (dict_get w key_code)
                        \<and> (row_code w \<in> set ids \<longrightarrow> quantity_ok (dict_get w key_quantity)))
      \<longrightarrow> (\<exists>out ids'. create_stocks rows ids = (Inr out, ids')))
   \<and> (quantity_ok q \<longleftrightarrow>
         castable q \<and> (str_text q = ''>10'' \<or> str_text q = ''1'' \<or> (\<exists>n. py_int q = Inr n)))
   \<and> castable PNone \<and> castable (PStr s)
   \<and> (castable (PInt i) \<longleftrightarrow> length (str_nat (nat \<bar>i\<bar>)) \<le> 4300)
   \<and> \<not> quantity_ok (PStr ''>5'') \<and> \<not> quantity_ok (PStr '''')
   \<and> create_stocks [[(key_code, PStr ''123''), (key_quantity, PStr ''>5'')]] [PStr ''123'']
       = (Inl ValueError, [PStr ''123''])
   \<and> create_stocks [[(key_code, PStr ''123''), (key_quantity, PStr '''')]] [PStr ''123'']
       = (Inl ValueError, [PStr ''123''])"
proof -
  have 3: "(\<forall>w \<in> set rows. castable (dict_get w key_code)
                        \<and> (row_code w \<in> set ids \<longrightarrow> quantity_ok (dict_get w key_quantity)))
      \<longrightarrow> (\<exists>out ids'. create_stocks rows ids = (Inr out, ids'))"
    using claimed_precondition_suffices [of rows ids] by (rule impI)
  have 7: "castable (PInt i) \<longleftrightarrow> length (str_nat (nat \<bar>i\<bar>)) \<le> 4300"
    by (simp add: castable_cases int_max_str_digits_def)
  show ?thesis
    by (intro conjI)
       (rule create_stocks_total, rule create_stocks_raises, rule 3, rule quantity_ok_iff,
        rule castable_cases(1), rule castable_cases(2), rule 7,
        rule bad_quantity_runs(1), rule bad_quantity_runs(2),
        rule bad_quantity_runs(4), rule bad_quantity_runs(5))
qed

lemma feed_stocks_run:
  "create_stocks feed_rows feed_ids
     = (Inr [[(''offer_id'', PStr ''70''), (''stock'', PInt 4)],
             [(''offer_id'', PStr ''71''), (''stock'', PInt 12)],
             [(''offer_id'', PStr ''72''), (''stock'', PInt 0)],
             [(''offer_id'', PStr ''73''), (''stock'', PInt 0)]], [PStr ''73''])"
  by code_simp

theorem create_stocks_total_iff_quantities_ok_witness:
  "matched_rows feed_rows (PStr ''99'' # feed_ids) = feed_rows
   \<and> \<not> quantity_ok (dict_get (feed_rows ! 2) key_quantity)
   \<and> (\<exists>e ids'. create_stocks feed_rows (PStr ''99'' # feed_ids) = (Inl e, ids'))
   \<and> create_stocks feed_rows (PStr ''99'' # feed_ids)
       = (Inl ValueError, [PStr ''99'', PStr ''72'', PStr ''73''])
   \<and> (\<exists>out ids'. create_stocks feed_rows feed_ids = (Inr out, ids'))
   \<and> create_stocks feed_rows feed_ids
       = (Inr [[(''offer_id'', PStr ''70''), (''stock'', PInt 4)],
               [(''offer_id'', PStr ''71''), (''stock'', PInt 12)],
               [(''offer_id'', PStr ''72''), (''stock'', PInt 0)],
               [(''offer_id'', PStr ''73''), (''stock'', PInt 0)]], [PStr ''73''])"
proof -
  have m: "matched_rows feed_rows (PStr ''99'' # feed_ids) = feed_rows"
    by code_simp
  have b: "\<not> quantity_ok (dict_get (feed_rows ! 2) key_quantity)"
    by code_simp
  have i: "feed_rows ! 2 \<in> set (matched_rows feed_rows (PStr ''99'' # feed_ids))"
    unfolding m by code_simp
  have c: "\<forall>w \<in> set feed_rows. castable (dict_get w key_code)"
    by code_simp
  have g: "\<forall>w \<in> set (matched_rows feed_rows feed_ids). quantity_ok (dict_get w key_quantity)"
    by code_simp
  have x: "\<exists>w \<in> set (matched_rows feed_rows (PStr ''99'' # feed_ids)).
             \<not> quantity_ok (dict_get w key_quantity)"
    using i b by (rule bexI [rotated])
  have raises: "\<exists>e ids'. create_stocks feed_rows (PStr ''99'' # feed_ids) = (Inl e, ids')"
    by (rule create_stocks_total_iff_quantities_ok
               [of feed_rows "PStr ''99'' # feed_ids", THEN conjunct2, THEN conjunct1,
                THEN iffD2, OF disjI2 [OF x]])
  have returns: "\<exists>out ids'. create_stocks feed_rows feed_ids = (Inr out, ids')"
    by (rule create_stocks_total_iff_quantities_ok
               [of feed_rows feed_ids, THEN conjunct1, THEN iffD2, OF conjI [OF c g]])
  have run: "create_stocks feed_rows (PStr ''99'' # feed_ids)
       = (Inl ValueError, [PStr ''99'', PStr ''72'', PStr ''73''])"
    by code_simp
  show ?thesis
    by (intro conjI) (rule m, rule b, rule raises, rule run, rule returns, rule feed_stocks_run)
qed

text \<open>
  The claim as it was stated asks every row whose code appears in the list to carry an
  accepted quantity. A feed that repeats a code shows that this is not needed: the first
  row consumes the offer id, so the second row is skipped and its quantity \<^verbatim>\<open>>5\<close> is
  never parsed.
\<close>

theorem create_stocks_repeated_code_returns:
  "create_stocks [[(key_code, PStr ''7''), (key_quantity, PStr ''1'')],
                  [(key_code, PStr ''7''), (key_quantity, PStr ''>5'')]] [PStr ''7'']
     = (Inr [[(''offer_id'', PStr ''7''), (''stock'', PInt 0)]], [])
   \<and> row_code [(key_code, PStr ''7''), (key_quantity, PStr ''>5'')] \<in> set [PStr ''7'']
   \<and> \<not> quantity_ok (dict_get [(key_code, PStr ''7''), (key_quantity, PStr ''>5'')] key_quantity)"
proof -
  have 1: "create_stocks [[(key_code, PStr ''7''), (key_quantity, PStr ''1'')],
                  [(key_code, PStr ''7''), (key_quantity, PStr ''>5'')]] [PStr ''7'']
     = (Inr [[(''offer_id'', PStr ''7''), (''stock'', PInt 0)]], [])"
    by code_simp
  have 2: "row_code [(key_code, PStr ''7''), (key_quantity, PStr ''>5'')] \<in> set [PStr ''7'']"
    by code_simp
  have 3: "\<not> quantity_ok (dict_get [(key_code, PStr ''7''), (key_quantity, PStr ''>5'')]
                             key_quantity)"
    by code_simp
  show ?thesis by (intro conjI) (rule 1, rule 2, rule 3)
qed

section \<open>What \<^verbatim>\<open>create_stocks\<close> leaves in the caller's list\<close>

lemma create_stocks_rows_frame:
  "snd (create_stocks_rows rows stocks ids)
     = fold remove1 (map row_code (consumed_rows rows ids)) ids"
proof (induction rows arbitrary: stocks ids)
  case Nil
  then show ?case by simp
next
  case (Cons watch rest)
  show ?case
  proof (cases "castable (dict_get watch key_code)")
    case False
    then show ?thesis by (simp add: create_stocks_rows_step)
  next
    case c: True
    show ?thesis
    proof (cases "row_code watch \<in> set ids")
      case False
      then show ?thesis using c Cons.IH [of stocks ids] by (simp add: create_stocks_rows_step)
    next
      case True
      show ?thesis
      proof (cases "castable (dict_get watch key_quantity)")
        case False
        then show ?thesis using c True by (simp add: create_stocks_rows_step quantity_ok_def)
      next
        case q: True
        show ?thesis
        proof (cases "stock_rule (dict_get watch key_quantity)")
          case (Inl e)
          then show ?thesis
            using c q True by (simp add: create_stocks_rows_step quantity_ok_def)
        next
          case (Inr n)
          then show ?thesis
            using c q True
              Cons.IH [of "stocks @ [stock_update watch n]" "remove1 (row_code watch) ids"]
            by (simp add: create_stocks_rows_step quantity_ok_def)
        qed
      qed
    qed
  qed
qed

lemma create_stocks_frame:
  "snd (create_stocks rows ids) = fold remove1 (map row_code (consumed_rows rows ids)) ids"
proof -
  have "snd (create_stocks rows ids) = snd (create_stocks_rows rows [] ids)"
    by (simp add: create_stocks_def split: prod.splits sum.splits)
  then show ?thesis by (simp add: create_stocks_rows_frame)
qed

lemma consumed_remaining_mset:
  "mset (map row_code (consumed_rows rows ids))
     + mset (fold remove1 (map row_code (consumed_rows rows ids)) ids) = mset ids"
proof (induction rows arbitrary: ids)
  case Nil
  then show ?case by simp
next
  case (Cons watch rest)
  show ?case
  proof (cases "castable (dict_get watch key_code) \<and> row_code watch \<in> set ids
                  \<and> quantity_ok (dict_get watch key_quantity)")
    case True
    have "mset (map row_code (consumed_rows rest (remove1 (row_code watch) ids)))
            + mset (fold remove1 (map row_code (consumed_rows rest (remove1 (row_code watch) ids)))
                      (remove1 (row_code watch) ids))
          = mset ids - {#row_code watch#}"
      using Cons.IH [of "remove1 (row_code watch) ids"] by simp
    then show ?thesis using True by simp
  next
    case False
    then show ?thesis using Cons.IH [of ids] by auto
  qed
qed

lemma consumed_rows_matched:
  "\<forall>w \<in> set rows. castable (dict_get w key_code)
     \<Longrightarrow> \<forall>w \<in> set (matched_rows rows ids). quantity_ok (dict_get w key_quantity)
     \<Longrightarrow> consumed_rows rows ids = matched_rows rows ids"
proof (induction rows arbitrary: ids)
  case Nil
  then show ?case by simp
next
  case (Cons watch rest)
  have c: "castable (dict_get watch key_code)" and cr: "\<forall>w \<in> set rest. castable (dict_get w key_code)"
    using Cons.prems(1) by simp_all
  show ?case
  proof (cases "row_code watch \<in> set ids")
    case False
    then show ?thesis using c cr Cons.IH [of ids] Cons.prems(2) by simp
  next
    case True
    then have "quantity_ok (dict_get watch key_quantity)"
      and "\<forall>w \<in> set (matched_rows rest (remove1 (row_code watch) ids)).
             quantity_ok (dict_get w key_quantity)"
      using Cons.prems(2) by simp_all
    then show ?thesis
      using c cr True Cons.IH [of "remove1 (row_code watch) ids"] by simp
  qed
qed

section \<open>Price updates: the loop of \<^verbatim>\<open>create_prices\<close>\<close>

lemma create_prices_rows_step:
  "create_prices_rows (watch # rest) prices ids =
     (if \<not> castable (dict_get watch key_code) then (Inl ValueError, ids)
      else if row_code watch \<in> set ids then
        (case price_conversion (dict_get watch key_price) of
           Inl e \<Rightarrow> (Inl e, ids)
         | Inr p \<Rightarrow> create_prices_rows rest (prices @ [price_update watch p]) ids)
      else create_prices_rows rest prices ids)"
  by (simp add: py_str_cases row_code_def price_update_def split: sum.splits)

declare create_prices_rows.simps(2) [simp del]

lemma create_prices_rows_frame: "snd (create_prices_rows rows prices ids) = ids"
proof (induction rows arbitrary: prices)
  case Nil
  then show ?case by simp
next
  case (Cons watch rest)
  then show ?case by (simp add: create_prices_rows_step split: sum.splits)
qed

lemma create_prices_rows_Inr:
  "create_prices_rows rows prices ids = (Inr out, ids'')
     \<Longrightarrow> \<exists>es. out = prices @ es
            \<and> list_all2 (\<lambda>w e. \<exists>p. price_conversion (dict_get w key_price) = Inr p
                                     \<and> e = price_update w p)
                 (filter (\<lambda>w. row_code w \<in> set ids) rows) es"
proof (induction rows arbitrary: prices)
  case Nil
  then show ?case by simp
next
  case (Cons watch rest)
  have c: "castable (dict_get watch key_code)"
  proof (rule ccontr)
    assume "\<not> castable (dict_get watch key_code)"
    then show False using Cons.prems by (simp add: create_prices_rows_step)
  qed
  show ?case
  proof (cases "row_code watch \<in> set ids")
    case False
    then have "create_prices_rows rest prices ids = (Inr out, ids'')"
      using Cons.prems c by (simp add: create_prices_rows_step)
    then show ?thesis using Cons.IH False by simp
  next
    case True
    show ?thesis
    proof (cases "price_conversion (dict_get watch key_price)")
      case (Inl e)
      then show ?thesis using Cons.prems c True by (simp add: create_prices_rows_step)
    next
      case (Inr p)
      then have "create_prices_rows rest (prices @ [price_update watch p]) ids = (Inr out, ids'')"
        using Cons.prems c True by (simp add: create_prices_rows_step)
      then obtain es where es: "out = (prices @ [price_update watch p]) @ es"
          "list_all2 (\<lambda>w e. \<exists>p. price_conversion (dict_get w key_price) = Inr p
                              \<and> e = price_update w p)
             (filter (\<lambda>w. row_code w \<in> set ids) rest) es"
        using Cons.IH by blast
      have "list_all2 (\<lambda>w e. \<exists>p. price_conversion (dict_get w key_price) = Inr p
                              \<and> e = price_update w p)
              (filter (\<lambda>w. row_code w \<in> set ids) (watch # rest)) (price_update watch p # es)"
        using es(2) Inr True by simp
      moreover have "out = prices @ (price_update watch p # es)" using es(1) by simp
      ultimately show ?thesis by blast
    qed
  qed
qed





lemma list_all2_price_codes:
  "list_all2 (\<lambda>w e. \<exists>p. price_conversion (dict_get w key_price) = Inr p \<and> e = price_update w p)
     ws es
   \<Longrightarrow> \<forall>e \<in> set es. \<exists>w \<in> set ws. offer_id_of e = row_code w"
  by (induction ws es rule: list_all2_induct) (auto simp: offer_id_of_simps)


text \<open>
  Claim C6. Whether \<^verbatim>\<open>create_stocks\<close> returns or raises, the caller's list then holds the
  original ids with the codes of the rows consumed removed, one occurrence (the first) for
  each such row and in the order of the rows; nothing else is removed and the order of the
  rest is kept. When it returns, the rows consumed are the rows matched. \<^verbatim>\<open>create_prices\<close>
  leaves the list as it was, whether it returns or raises, and every entry it returns
  carries the code of a supplier row whose code is in the list: it makes no entry for an
  offer id that no row has. With no row at all, \<^verbatim>\<open>create_stocks\<close> gives every offer id a
  zero-stock entry and \<^verbatim>\<open>create_prices\<close> gives nothing.
\<close>

theorem create_stocks_consumes_create_prices_preserves:
  "snd (create_stocks rows ids) = fold remove1 (map row_code (consumed_rows rows ids)) ids
   \<and> mset (snd (create_stocks rows ids))
       = mset ids - mset (map row_code (consumed_rows rows ids))
   \<and> mset (map row_code (consumed_rows rows ids)) \<subseteq># mset ids
   \<and> (create_stocks rows ids = (Inr out, ids') \<longrightarrow>
        consumed_rows rows ids = matched_rows rows ids
      \<and> ids' = fold remove1 (map row_code (matched_rows rows ids)) ids)
   \<and> snd (create_prices rows ids) = ids
   \<and> (create_prices rows ids = (Inr prices, ids'') \<longrightarrow>
        (\<forall>e \<in> set prices. \<exists>w \<in> set rows. row_code w \<in> set ids \<and> offer_id_of e = row_code w))
   \<and> create_stocks [] ids = (Inr (map zero_stock ids), ids)
   \<and> create_prices [] ids = (Inr [], ids)"
proof -
  have 1: "snd (create_stocks rows ids)
             = fold remove1 (map row_code (consumed_rows rows ids)) ids"
    by (rule create_stocks_frame)
  have m: "mset (map row_code (consumed_rows rows ids)) + mset (snd (create_stocks rows ids))
             = mset ids"
    unfolding 1 by (rule consumed_remaining_mset)
  have 2: "mset (snd (create_stocks rows ids))
             = mset ids - mset (map row_code (consumed_rows rows ids))"
    using m by (metis add_diff_cancel_left')
  have 3: "mset (map row_code (consumed_rows rows ids)) \<subseteq># mset ids"
    using m by (metis mset_subset_eq_add_left)
  have 4: "create_stocks rows ids = (Inr out, ids') \<longrightarrow>
        consumed_rows rows ids = matched_rows rows ids
      \<and> ids' = fold remove1 (map row_code (matched_rows rows ids)) ids"
  proof
    assume a: "create_stocks rows ids = (Inr out, ids')"
    then have "\<exists>out ids'. create_stocks rows ids = (Inr out, ids')"
      by (intro exI)
    then have t: "(\<forall>w \<in> set rows. castable (dict_get w key_code))
          \<and> (\<forall>w \<in> set (matched_rows rows ids). quantity_ok (dict_get w key_quantity))"
      unfolding create_stocks_total .
    have c: "consumed_rows rows ids = matched_rows rows ids"
      by (rule consumed_rows_matched [OF conjunct1 [OF t] conjunct2 [OF t]])
    have "ids' = remaining_ids rows ids"
      by (rule create_stocks_Inr(1) [OF a])
    then have "ids' = fold remove1 (map row_code (matched_rows rows ids)) ids"
      by (simp add: remaining_ids_def)
    then show "consumed_rows rows ids = matched_rows rows ids
      \<and> ids' = fold remove1 (map row_code (matched_rows rows ids)) ids"
      using c by (intro conjI)
  qed
  have 5: "snd (create_prices rows ids) = ids"
    by (simp add: create_prices_def create_prices_rows_frame)
  have 6: "create_prices rows ids = (Inr prices, ids'') \<longrightarrow>
        (\<forall>e \<in> set prices. \<exists>w \<in> set rows. row_code w \<in> set ids \<and> offer_id_of e = row_code w)"
  proof
    assume "create_prices rows ids = (Inr prices, ids'')"
    then have "list_all2 (\<lambda>w e. \<exists>p. price_conversion (dict_get w key_price) = Inr p
                                  \<and> e = price_update w p)
                 (filter (\<lambda>w. row_code w \<in> set ids) rows) prices"
      using create_prices_rows_Inr [of rows "[]" ids prices ids''] by (simp add: create_prices_def)
    then have "\<forall>e \<in> set prices. \<exists>w \<in> set (filter (\<lambda>w. row_code w \<in> set ids) rows).
                 offer_id_of e = row_code w"
      by (rule list_all2_price_codes)
    then show "\<forall>e \<in> set prices. \<exists>w \<in> set rows. row_code w \<in> set ids \<and> offer_id_of e = row_code w"
      by auto
  qed
  have 7: "create_stocks [] ids = (Inr (map zero_stock ids), ids)"
    by (simp add: create_stocks_def zero_stock_def)
  have 8: "create_prices [] ids = (Inr [], ids)"
    by (simp add: create_prices_def)
  show ?thesis
    by (intro conjI) (rule 1, rule 2, rule 3, rule 4, rule 5, rule 6, rule 7, rule 8)
qed

theorem create_stocks_consumes_create_prices_preserves_witness:
  "create_stocks spec_rows spec_ids = (Inr spec_stocks, [PStr ''789''])
   \<and> consumed_rows spec_rows spec_ids = matched_rows spec_rows spec_ids
   \<and> [PStr ''789''] = fold remove1 (map row_code (matched_rows spec_rows spec_ids)) spec_ids
   \<and> map row_code (matched_rows spec_rows spec_ids) = [PStr ''123'', PStr ''456'']
   \<and> snd (create_prices spec_rows spec_ids) = spec_ids
   \<and> create_stocks [[(key_code, PStr ''123''), (key_quantity, PStr ''1'')],
                     [(key_code, PStr ''456''), (key_quantity, PStr ''>5'')]] spec_ids
       = (Inl ValueError, [PStr ''456'', PStr ''789''])"
proof -
  note t = create_stocks_consumes_create_prices_preserves
             [of spec_rows spec_ids spec_stocks "[PStr ''789'']"]
  have a: "consumed_rows spec_rows spec_ids = matched_rows spec_rows spec_ids
      \<and> [PStr ''789''] = fold remove1 (map row_code (matched_rows spec_rows spec_ids)) spec_ids"
    by (rule t [THEN conjunct2, THEN conjunct2, THEN conjunct2, THEN conjunct1, THEN mp,
                OF spec_stocks_run])
  have c: "map row_code (matched_rows spec_rows spec_ids) = [PStr ''123'', PStr ''456'']"
    by code_simp
  have p: "snd (create_prices spec_rows spec_ids) = spec_ids"
    by (rule t [THEN conjunct2, THEN conjunct2, THEN conjunct2, THEN conjunct2, THEN conjunct1])
  have r: "create_stocks [[(key_code, PStr ''123''), (key_quantity, PStr ''1'')],
                     [(key_code, PStr ''456''), (key_quantity, PStr ''>5'')]] spec_ids
       = (Inl ValueError, [PStr ''456'', PStr ''789''])"
    by code_simp
  show ?thesis
    by (intro conjI)
       (rule spec_stocks_run, rule conjunct1 [OF a], rule conjunct2 [OF a], rule c, rule p, rule r)
qed



section \<open>Pagination: the loop of \<^verbatim>\<open>get_offer_ids\<close>\<close>

lemma raise_for_status_error:
  "400 \<le> status_code r \<Longrightarrow> status_code r < 600
     \<Longrightarrow> raise_for_status r = Inl (HTTPError (status_code r))"
  by (simp add: raise_for_status_def)

lemma get_offer_ids_loop_first_error:
  "get_product_list post last_id c t w = (Inl e, w')
     \<Longrightarrow> get_offer_ids_loop post c t last_id product_list w = Some (Inl e, w')"
  by (subst get_offer_ids_loop.simps) simp

lemma get_offer_ids_loop_step:
  "get_offer_ids_loop post c t last_id product_list w =
     (case fetch_page post c t last_id product_list w of
        (Inl e, w') \<Rightarrow> Some (Inl e, w')
      | (Inr (tot, product_list', last_id'), w') \<Rightarrow>
          if tot = PInt (int (length product_list')) then Some (Inr product_list', w')
          else get_offer_ids_loop post c t last_id' product_list' w')"
  by (subst get_offer_ids_loop.simps)
     (simp add: fetch_page_def Let_def split: prod.splits sum.splits option.splits)

lemma fetches_Suc_Inl:
  "fetch_page post c t last_id product_list w = (Inl e, w')
     \<Longrightarrow> fetches post c t n last_id product_list w = (Inl e, w')"
  by (cases n) simp_all

lemma fetches_Suc_Inr:
  "fetch_page post c t last_id product_list w = (Inr (tot, product_list', last_id'), w')
     \<Longrightarrow> fetches post c t (Suc n) last_id product_list w
           = fetches post c t n last_id' product_list' w'"
  by simp

text \<open>If pass \<open>n\<close> is the first whose count matches, or a pass that raises with no match
  before it, the loop ends there.\<close>

lemma loop_stops_at:
  "\<not> fetch_ok (fetches post c t n last_id product_list w)
     \<or> count_matches (fetches post c t n last_id product_list w)
   \<Longrightarrow> \<forall>m<n. \<not> count_matches (fetches post c t m last_id product_list w)
   \<Longrightarrow> get_offer_ids_loop post c t last_id product_list w
         = Some (loop_outcome (fetches post c t n last_id product_list w))"
proof (induction n arbitrary: last_id product_list w)
  case 0
  show ?case
  proof (cases "fetch_page post c t last_id product_list w")
    case (Pair a w')
    show ?thesis
    proof (cases a)
      case (Inl e)
      then show ?thesis using Pair
        by (subst get_offer_ids_loop_step) (simp add: loop_outcome_def)
    next
      case (Inr p)
      obtain tot pl l where p: "p = (tot, pl, l)" by (cases p) auto
      have "count_matches (fetches post c t 0 last_id product_list w)"
        using 0(1) Pair Inr by (simp add: fetch_ok_def)
      then have "tot = PInt (int (length pl))"
        using Pair Inr p by (simp add: count_matches_def)
      then show ?thesis using Pair Inr p
        by (subst get_offer_ids_loop_step) (simp add: loop_outcome_def)
    qed
  qed
next
  case (Suc n)
  show ?case
  proof (cases "fetch_page post c t last_id product_list w")
    case (Pair a w')
    show ?thesis
    proof (cases a)
      case (Inl e)
      then have "fetches post c t (Suc n) last_id product_list w = (Inl e, w')"
        using Pair by simp
      then show ?thesis using Pair Inl
        by (subst get_offer_ids_loop_step) (simp add: loop_outcome_def)
    next
      case (Inr p)
      obtain tot pl l where p: "p = (tot, pl, l)" by (cases p) auto
      have fp: "fetch_page post c t last_id product_list w = (Inr (tot, pl, l), w')"
        using Pair Inr p by simp
      have sh: "\<And>k. fetches post c t (Suc k) last_id product_list w = fetches post c t k l pl w'"
        using fp by simp
      have "\<not> count_matches (fetches post c t 0 last_id product_list w)"
        using Suc.prems(2) by blast
      then have ne: "tot \<noteq> PInt (int (length pl))"
        using fp by (simp add: count_matches_def)
      have a1: "\<not> fetch_ok (fetches post c t n l pl w') \<or> count_matches (fetches post c t n l pl w')"
        using Suc.prems(1) sh by simp
      have a2: "\<forall>m<n. \<not> count_matches (fetches post c t m l pl w')"
      proof (intro allI impI)
        fix m assume "m < n"
        then have "Suc m < Suc n" by simp
        then have "\<not> count_matches (fetches post c t (Suc m) last_id product_list w)"
          using Suc.prems(2) by blast
        then show "\<not> count_matches (fetches post c t m l pl w')" using sh [of m] by metis
      qed
      have "get_offer_ids_loop post c t l pl w' = Some (loop_outcome (fetches post c t n l pl w'))"
        using Suc.IH [OF a1 a2] .
      then show ?thesis using fp ne sh
        by (subst get_offer_ids_loop_step) simp
    qed
  qed
qed

text \<open>If the loop ends, some pass raised or matched.\<close>

lemma loop_ends_somewhere:
  assumes "get_offer_ids_loop post c t last_id product_list w = Some r"
  shows "\<exists>n. \<not> fetch_ok (fetches post c t n last_id product_list w)
              \<or> count_matches (fetches post c t n last_id product_list w)"
proof (rule get_offer_ids_loop.raw_induct
         [where P = "\<lambda>post c t last_id product_list w r.
                       \<exists>n. \<not> fetch_ok (fetches post c t n last_id product_list w)
                          \<or> count_matches (fetches post c t n last_id product_list w)",
          OF _ assms])
  fix loop post c t last_id product_list w r
  assume ih: "\<And>post c t last_id product_list w r.
                loop post c t last_id product_list w = Some r
                \<Longrightarrow> \<exists>n. \<not> fetch_ok (fetches post c t n last_id product_list w)
                       \<or> count_matches (fetches post c t n last_id product_list w)"
    and body: "(case get_product_list post last_id c t w of
                  (Inl e, w') \<Rightarrow> Some (Inl e, w')
                | (Inr None, w') \<Rightarrow> Some (Inl AttributeError, w')
                | (Inr (Some some_prod), w') \<Rightarrow>
                    (case page_items some_prod of
                       None \<Rightarrow> Some (Inl TypeError, w')
                     | Some its \<Rightarrow>
                         (let product_list' = product_list @ its in
                          if page_total some_prod = PInt (int (length product_list'))
                          then Some (Inr product_list', w')
                          else loop post c t (page_last_id some_prod) product_list' w')))
               = Some r"
  show "\<exists>n. \<not> fetch_ok (fetches post c t n last_id product_list w)
            \<or> count_matches (fetches post c t n last_id product_list w)"
  proof (cases "fetch_page post c t last_id product_list w")
    case (Pair a w')
    show ?thesis
    proof (cases a)
      case (Inl e)
      then have "\<not> fetch_ok (fetches post c t 0 last_id product_list w)"
        using Pair by (simp add: fetch_ok_def)
      then show ?thesis by blast
    next
      case (Inr p)
      obtain tot pl l where p: "p = (tot, pl, l)" by (cases p) auto
      have fp: "fetch_page post c t last_id product_list w = (Inr (tot, pl, l), w')"
        using Pair Inr p by simp
      show ?thesis
      proof (cases "tot = PInt (int (length pl))")
        case True
        then have "count_matches (fetches post c t 0 last_id product_list w)"
          using fp by (simp add: count_matches_def)
        then show ?thesis by blast
      next
        case False
        have "loop post c t l pl w' = Some r"
          using body fp False
          by (auto simp: fetch_page_def Let_def split: prod.splits sum.splits option.splits)
        then obtain n where "\<not> fetch_ok (fetches post c t n l pl w')
                               \<or> count_matches (fetches post c t n l pl w')"
          using ih by blast
        then have "\<not> fetch_ok (fetches post c t (Suc n) last_id product_list w)
                     \<or> count_matches (fetches post c t (Suc n) last_id product_list w)"
          using fp by simp
        then show ?thesis by blast
      qed
    qed
  qed
qed

lemma first_stop:
  assumes "\<exists>n. P (n::nat)"
  shows "\<exists>n. P n \<and> (\<forall>m<n. \<not> P m)"
  using assms exists_least_iff [of P] by blast

lemma loop_Some_iff:
  "get_offer_ids_loop post c t last_id product_list w = Some r
     \<longleftrightarrow> (\<exists>n. (\<not> fetch_ok (fetches post c t n last_id product_list w)
                 \<or> count_matches (fetches post c t n last_id product_list w))
              \<and> (\<forall>m<n. \<not> count_matches (fetches post c t m last_id product_list w))
              \<and> r = loop_outcome (fetches post c t n last_id product_list w))"
proof
  assume a: "get_offer_ids_loop post c t last_id product_list w = Some r"
  let ?P = "\<lambda>n. \<not> fetch_ok (fetches post c t n last_id product_list w)
                 \<or> count_matches (fetches post c t n last_id product_list w)"
  have "\<exists>n. ?P n" using loop_ends_somewhere [OF a] .
  then obtain n where n: "?P n" "\<forall>m<n. \<not> ?P m"
    using first_stop [of ?P] by blast
  have nm: "\<forall>m<n. \<not> count_matches (fetches post c t m last_id product_list w)"
    using n(2) by blast
  have "get_offer_ids_loop post c t last_id product_list w
          = Some (loop_outcome (fetches post c t n last_id product_list w))"
    using loop_stops_at [OF n(1) nm] .
  then have "r = loop_outcome (fetches post c t n last_id product_list w)"
    using a by simp
  then show "\<exists>n. ?P n
              \<and> (\<forall>m<n. \<not> count_matches (fetches post c t m last_id product_list w))
              \<and> r = loop_outcome (fetches post c t n last_id product_list w)"
    using n(1) nm by blast
next
  assume "\<exists>n. (\<not> fetch_ok (fetches post c t n last_id product_list w)
                 \<or> count_matches (fetches post c t n last_id product_list w))
              \<and> (\<forall>m<n. \<not> count_matches (fetches post c t m last_id product_list w))
              \<and> r = loop_outcome (fetches post c t n last_id product_list w)"
  then obtain n where n:
      "\<not> fetch_ok (fetches post c t n last_id product_list w)
         \<or> count_matches (fetches post c t n last_id product_list w)"
      "\<forall>m<n. \<not> count_matches (fetches post c t m last_id product_list w)"
      "r = loop_outcome (fetches post c t n last_id product_list w)"
    by blast
  show "get_offer_ids_loop post c t last_id product_list w = Some r"
    using loop_stops_at [OF n(1) n(2)] n(3) by simp
qed

lemma loop_None_iff:
  "get_offer_ids_loop post c t last_id product_list w = None
     \<longleftrightarrow> (\<forall>n. fetch_ok (fetches post c t n last_id product_list w)
              \<and> \<not> count_matches (fetches post c t n last_id product_list w))"
proof
  assume a: "get_offer_ids_loop post c t last_id product_list w = None"
  show "\<forall>n. fetch_ok (fetches post c t n last_id product_list w)
              \<and> \<not> count_matches (fetches post c t n last_id product_list w)"
  proof (rule ccontr)
    let ?P = "\<lambda>n. \<not> fetch_ok (fetches post c t n last_id product_list w)
                   \<or> count_matches (fetches post c t n last_id product_list w)"
    assume "\<not> (\<forall>n. fetch_ok (fetches post c t n last_id product_list w)
              \<and> \<not> count_matches (fetches post c t n last_id product_list w))"
    then have "\<exists>n. ?P n" by blast
    then obtain n where n: "?P n" "\<forall>m<n. \<not> ?P m"
      using first_stop [of ?P] by blast
    have nm: "\<forall>m<n. \<not> count_matches (fetches post c t m last_id product_list w)"
      using n(2) by blast
    show False using loop_stops_at [OF n(1) nm] a by simp
  qed
next
  assume a: "\<forall>n. fetch_ok (fetches post c t n last_id product_list w)
              \<and> \<not> count_matches (fetches post c t n last_id product_list w)"
  show "get_offer_ids_loop post c t last_id product_list w = None"
  proof (cases "get_offer_ids_loop post c t last_id product_list w")
    case None
    then show ?thesis .
  next
    case (Some r)
    then show ?thesis using loop_ends_somewhere [OF Some] a by blast
  qed
qed

lemma loop_outcome_Inr:
  "loop_outcome x = (Inr pl, w') \<Longrightarrow> fetch_ok x \<and> accumulated x = pl \<and> snd x = w'"
  by (auto simp: loop_outcome_def fetch_ok_def accumulated_def split: prod.splits sum.splits)

lemma count_matches_outcome:
  "count_matches x \<Longrightarrow> loop_outcome x = (Inr (accumulated x), snd x)"
  by (auto simp: loop_outcome_def count_matches_def accumulated_def split: prod.splits sum.splits)

lemma get_offer_ids_None_iff:
  "get_offer_ids post c t w = None
     \<longleftrightarrow> get_offer_ids_loop post c t (PStr '''') [] w = None"
  by (auto simp: get_offer_ids_def split: option.splits prod.splits sum.splits)

lemma get_offer_ids_Inr_iff:
  "get_offer_ids post c t w = Some (Inr ids, w')
     \<longleftrightarrow> (\<exists>pl. get_offer_ids_loop post c t (PStr '''') [] w = Some (Inr pl, w')
              \<and> ids = map (\<lambda>product. dict_get product ''offer_id'') pl)"
  by (auto simp: get_offer_ids_def split: option.splits prod.splits sum.splits)

lemma get_offer_ids_first_match:
  assumes "count_matches (fetches post c t n (PStr '''') [] w)"
    and "\<forall>m<n. \<not> count_matches (fetches post c t m (PStr '''') [] w)"
  shows "get_offer_ids post c t w
           = Some (Inr (map (\<lambda>product. dict_get product ''offer_id'')
                          (accumulated (fetches post c t n (PStr '''') [] w))),
                   snd (fetches post c t n (PStr '''') [] w))"
proof -
  have "get_offer_ids_loop post c t (PStr '''') [] w
          = Some (loop_outcome (fetches post c t n (PStr '''') [] w))"
    by (rule loop_stops_at [OF disjI2 [OF assms(1)] assms(2)])
  then have "get_offer_ids_loop post c t (PStr '''') [] w
          = Some (Inr (accumulated (fetches post c t n (PStr '''') [] w)),
                  snd (fetches post c t n (PStr '''') [] w))"
    by (simp only: count_matches_outcome [OF assms(1)])
  then show ?thesis by (simp add: get_offer_ids_def)
qed

lemma get_offer_ids_returns_iff:
  "(\<exists>ids w'. get_offer_ids post c t w = Some (Inr ids, w'))
     \<longleftrightarrow> (\<exists>n. count_matches (fetches post c t n (PStr '''') [] w))"
proof
  assume "\<exists>ids w'. get_offer_ids post c t w = Some (Inr ids, w')"
  then obtain ids w' where g: "get_offer_ids post c t w = Some (Inr ids, w')"
    by (elim exE)
  obtain pl where l: "get_offer_ids_loop post c t (PStr '''') [] w = Some (Inr pl, w')"
    using g unfolding get_offer_ids_Inr_iff by (elim exE conjE)
  obtain n where n:
      "\<not> fetch_ok (fetches post c t n (PStr '''') [] w)
         \<or> count_matches (fetches post c t n (PStr '''') [] w)"
      "(Inr pl, w') = loop_outcome (fetches post c t n (PStr '''') [] w)"
    using l unfolding loop_Some_iff by (elim exE conjE)
  have "fetch_ok (fetches post c t n (PStr '''') [] w)"
    using loop_outcome_Inr [OF n(2) [symmetric]] by (rule conjunct1)
  then have "count_matches (fetches post c t n (PStr '''') [] w)"
    using n(1) by simp
  then show "\<exists>n. count_matches (fetches post c t n (PStr '''') [] w)"
    by (rule exI)
next
  assume "\<exists>n. count_matches (fetches post c t n (PStr '''') [] w)"
  then have "\<exists>n. count_matches (fetches post c t n (PStr '''') [] w)
                \<and> (\<forall>m<n. \<not> count_matches (fetches post c t m (PStr '''') [] w))"
    by (rule first_stop)
  then obtain n where n: "count_matches (fetches post c t n (PStr '''') [] w)"
      "\<forall>m<n. \<not> count_matches (fetches post c t m (PStr '''') [] w)"
    by (elim exE conjE)
  show "\<exists>ids w'. get_offer_ids post c t w = Some (Inr ids, w')"
    by (intro exI) (rule get_offer_ids_first_match [OF n])
qed

subsection \<open>The two mock listings\<close>

lemma two_page_fetches:
  "fetches two_page_post c t 0 (PStr '''') [] 0
     = (Inr (PInt 5, [[(''offer_id'', PStr ''a1'')], [(''offer_id'', PStr ''a2'')]], PStr ''p1''), 1)"
  "fetches two_page_post c t 1 (PStr '''') [] 0
     = (Inr (PInt 5, [[(''offer_id'', PStr ''a1'')], [(''offer_id'', PStr ''a2'')],
                      [(''offer_id'', PStr ''b1'')], [(''offer_id'', PStr ''b2'')],
                      [(''offer_id'', PStr ''b3'')]], PStr ''p2''), 2)"
  by (simp_all add: fetch_page_def get_product_list_def io_bind_def io_return_def
        raise_for_status_def two_page_post_def mock_page_def ok_response_def)

lemma two_page_run:
  "get_offer_ids two_page_post c t 0
     = Some (Inr [PStr ''a1'', PStr ''a2'', PStr ''b1'', PStr ''b2'', PStr ''b3''], 2)"
proof -
  have 1: "count_matches (fetches two_page_post c t 1 (PStr '''') [] 0)"
    by (simp only: two_page_fetches) (simp add: count_matches_def)
  have 0: "\<not> count_matches (fetches two_page_post c t 0 (PStr '''') [] 0)"
    by (simp only: two_page_fetches) (simp add: count_matches_def)
  have "\<forall>m<1. \<not> count_matches (fetches two_page_post c t m (PStr '''') [] 0)"
    using 0 by simp
  then have "get_offer_ids two_page_post c t 0
          = Some (Inr (map (\<lambda>product. dict_get product ''offer_id'')
                         (accumulated (fetches two_page_post c t 1 (PStr '''') [] 0))),
                  snd (fetches two_page_post c t 1 (PStr '''') [] 0))"
    by (rule get_offer_ids_first_match [OF 1])
  then show ?thesis
    by (simp only: two_page_fetches) (simp add: accumulated_def dict_get_def)
qed

lemma overshoot_fetches:
  "fetches overshoot_post c t n last_id product_list w
     = (Inr (PInt 3,
             product_list @ concat (replicate (Suc n)
               [[(''offer_id'', PStr ''a1'')], [(''offer_id'', PStr ''a2'')]]),
             PStr ''p''), w + Suc n)"
proof (induction n arbitrary: last_id product_list w)
  case 0
  show ?case
    by (simp add: fetch_page_def get_product_list_def io_bind_def io_return_def
          raise_for_status_def overshoot_post_def mock_page_def ok_response_def)
next
  case (Suc n)
  have "fetch_page overshoot_post c t last_id product_list w
          = (Inr (PInt 3, product_list @ [[(''offer_id'', PStr ''a1'')], [(''offer_id'', PStr ''a2'')]],
                  PStr ''p''), Suc w)"
    by (simp add: fetch_page_def get_product_list_def io_bind_def io_return_def
          raise_for_status_def overshoot_post_def mock_page_def ok_response_def)
  then have "fetches overshoot_post c t (Suc n) last_id product_list w
          = fetches overshoot_post c t n (PStr ''p'')
              (product_list @ [[(''offer_id'', PStr ''a1'')], [(''offer_id'', PStr ''a2'')]]) (Suc w)"
    by simp
  then show ?case using Suc.IH by simp
qed

lemma length_concat_pairs: "length (concat (replicate k [a, b])) = 2 * k"
  by (induction k) simp_all

lemma overshoot_run: "get_offer_ids overshoot_post c t 0 = None"
proof -
  have "\<forall>n. fetch_ok (fetches overshoot_post c t n (PStr '''') [] 0)
           \<and> \<not> count_matches (fetches overshoot_post c t n (PStr '''') [] 0)"
  proof
    fix n
    have "int (2 * Suc n) \<noteq> 3" by presburger
    then show "fetch_ok (fetches overshoot_post c t n (PStr '''') [] 0)
           \<and> \<not> count_matches (fetches overshoot_post c t n (PStr '''') [] 0)"
      by (simp only: overshoot_fetches)
         (simp add: fetch_ok_def count_matches_def length_concat_pairs del: replicate.simps)
  qed
  then show ?thesis
    unfolding get_offer_ids_None_iff loop_None_iff .
qed

subsection \<open>When the loop ends with an exception\<close>

lemma loop_outcome_Inl: "loop_outcome x = (Inl e, w') \<longleftrightarrow> x = (Inl e, w')"
  by (auto simp: loop_outcome_def split: prod.splits sum.splits)

lemma fetch_ok_Inl: "\<not> fetch_ok x \<longleftrightarrow> (\<exists>e w'. x = (Inl e, w'))"
  by (auto simp: fetch_ok_def split: prod.splits sum.splits)

lemma get_offer_ids_Inl_iff:
  "get_offer_ids post c t w = Some (Inl e, w')
     \<longleftrightarrow> get_offer_ids_loop post c t (PStr '''') [] w = Some (Inl e, w')"
  by (auto simp: get_offer_ids_def split: option.splits prod.splits sum.splits)

lemma get_offer_ids_raises_at:
  assumes "fetches post c t n (PStr '''') [] w = (Inl e, w')"
    and "\<forall>m<n. \<not> count_matches (fetches post c t m (PStr '''') [] w)"
  shows "get_offer_ids post c t w = Some (Inl e, w')"
proof -
  have "\<not> fetch_ok (fetches post c t n (PStr '''') [] w)"
    unfolding fetch_ok_Inl using assms(1) by (intro exI)
  then have "\<not> fetch_ok (fetches post c t n (PStr '''') [] w)
               \<or> count_matches (fetches post c t n (PStr '''') [] w)"
    by (rule disjI1)
  then have "get_offer_ids_loop post c t (PStr '''') [] w
          = Some (loop_outcome (fetches post c t n (PStr '''') [] w))"
    using assms(2) by (rule loop_stops_at)
  then have "get_offer_ids_loop post c t (PStr '''') [] w = Some (Inl e, w')"
    unfolding assms(1) by (simp add: loop_outcome_def)
  then show ?thesis unfolding get_offer_ids_Inl_iff .
qed

lemma get_offer_ids_raises_iff:
  "(\<exists>e w'. get_offer_ids post c t w = Some (Inl e, w'))
     \<longleftrightarrow> (\<exists>n. \<not> fetch_ok (fetches post c t n (PStr '''') [] w)
              \<and> (\<forall>m<n. \<not> count_matches (fetches post c t m (PStr '''') [] w)))"
proof
  assume "\<exists>e w'. get_offer_ids post c t w = Some (Inl e, w')"
  then obtain e w' where "get_offer_ids post c t w = Some (Inl e, w')"
    by (elim exE)
  then have l: "get_offer_ids_loop post c t (PStr '''') [] w = Some (Inl e, w')"
    unfolding get_offer_ids_Inl_iff .
  obtain n where n:
      "\<forall>m<n. \<not> count_matches (fetches post c t m (PStr '''') [] w)"
      "(Inl e, w') = loop_outcome (fetches post c t n (PStr '''') [] w)"
    using l unfolding loop_Some_iff by (elim exE conjE)
  have "fetches post c t n (PStr '''') [] w = (Inl e, w')"
    using n(2) [symmetric] unfolding loop_outcome_Inl .
  then have "\<not> fetch_ok (fetches post c t n (PStr '''') [] w)"
    unfolding fetch_ok_Inl by (intro exI)
  then show "\<exists>n. \<not> fetch_ok (fetches post c t n (PStr '''') [] w)
              \<and> (\<forall>m<n. \<not> count_matches (fetches post c t m (PStr '''') [] w))"
    using n(1) by (intro exI conjI)
next
  assume "\<exists>n. \<not> fetch_ok (fetches post c t n (PStr '''') [] w)
              \<and> (\<forall>m<n. \<not> count_matches (fetches post c t m (PStr '''') [] w))"
  then obtain n where n: "\<not> fetch_ok (fetches post c t n (PStr '''') [] w)"
      "\<forall>m<n. \<not> count_matches (fetches post c t m (PStr '''') [] w)"
    by (elim exE conjE)
  obtain e w' where "fetches post c t n (PStr '''') [] w = (Inl e, w')"
    using n(1) unfolding fetch_ok_Inl by (elim exE)
  then have "get_offer_ids post c t w = Some (Inl e, w')"
    using n(2) by (rule get_offer_ids_raises_at)
  then show "\<exists>e w'. get_offer_ids post c t w = Some (Inl e, w')"
    by (intro exI)
qed

subsection \<open>The mocks that answer with an error status\<close>

lemma status_post_fetches:
  "400 \<le> code \<Longrightarrow> code < 600
     \<Longrightarrow> fetches (status_post code j) c t n last_id product_list w = (Inl (HTTPError code), Suc w)"
proof -
  assume a: "400 \<le> code" "code < 600"
  have "fetch_page (status_post code j) c t last_id product_list w = (Inl (HTTPError code), Suc w)"
    using a by (simp add: fetch_page_def get_product_list_def io_bind_def io_raise_def
                  raise_for_status_def status_post_def)
  then show ?thesis by (rule fetches_Suc_Inl)
qed

lemma second_call_fails_fetches:
  "fetches second_call_fails c t 0 (PStr '''') [] 0
     = (Inr (PInt 5, [[(''offer_id'', PStr ''a1'')], [(''offer_id'', PStr ''a2'')]], PStr ''p1''), 1)"
  "fetches second_call_fails c t 1 (PStr '''') [] 0 = (Inl (HTTPError 500), 2)"
  by (simp_all add: fetch_page_def get_product_list_def io_bind_def io_return_def io_raise_def
        raise_for_status_def second_call_fails_def mock_page_def ok_response_def)

lemma second_call_fails_run:
  "get_offer_ids second_call_fails c t 0 = Some (Inl (HTTPError 500), 2)"
proof -
  have 0: "\<not> count_matches (fetches second_call_fails c t 0 (PStr '''') [] 0)"
    by (simp only: second_call_fails_fetches) (simp add: count_matches_def)
  have "\<forall>m<1. \<not> count_matches (fetches second_call_fails c t m (PStr '''') [] 0)"
    using 0 by simp
  then show ?thesis
    by (rule get_offer_ids_raises_at [OF second_call_fails_fetches(2)])
qed

section \<open>HTTP errors\<close>

text \<open>
  Claim C9. When the transport answers the request of \<^verbatim>\<open>get_product_list\<close>,
  \<^verbatim>\<open>update_price\<close> or \<^verbatim>\<open>update_stocks\<close> with a status from 400 to 599, the function
  raises \<^verbatim>\<open>HTTPError\<close> and returns no value, whatever the body of the response holds. An
  exception of a listing call, the first or a later one, leaves \<^verbatim>\<open>get_offer_ids\<close>
  unchanged, and one raised by a call in a loop over the chunks ends the loop.
\<close>

theorem marketplace_calls_raise_on_http_error:
  "400 \<le> status_code r \<and> status_code r < 600 \<and> 400 \<le> status_code r' \<and> status_code r' < 600 \<Longrightarrow>
     (post_l \<lparr>url = ''https://api-seller.ozon.ru/v2/product/list'',
               headers = [(''Client-Id'', c), (''Api-Key'', t)],
               payload = ProductListPayload ''ALL'' last_id 1000\<rparr> w = (Inr r, w')
        \<longrightarrow> get_product_list post_l last_id c t w = (Inl (HTTPError (status_code r)), w'))
   \<and> (post_i \<lparr>url = ''https://api-seller.ozon.ru/v1/product/import/prices'',
               headers = [(''Client-Id'', c), (''Api-Key'', t)],
               payload = PricesPayload prices\<rparr> w = (Inr r', w')
        \<longrightarrow> update_price post_i prices c t w = (Inl (HTTPError (status_code r')), w'))
   \<and> (post_i \<lparr>url = ''https://api-seller.ozon.ru/v1/product/import/stocks'',
               headers = [(''Client-Id'', c), (''Api-Key'', t)],
               payload = StocksPayload stocks\<rparr> w = (Inr r', w')
        \<longrightarrow> update_stocks post_i stocks c t w = (Inl (HTTPError (status_code r')), w'))
   \<and> (get_product_list post_l (PStr '''') c t w = (Inl e, w')
        \<longrightarrow> get_offer_ids post_l c t w = Some (Inl e, w'))
   \<and> (fetches post_l c t k (PStr '''') [] w = (Inl e, w')
        \<and> (\<forall>m<k. \<not> count_matches (fetches post_l c t m (PStr '''') [] w))
        \<longrightarrow> get_offer_ids post_l c t w = Some (Inl e, w'))
   \<and> (f x w = (Inl e, w') \<longrightarrow> for_each f (x # xs) w = (Inl e, w'))"
proof -
  assume a: "400 \<le> status_code r \<and> status_code r < 600
               \<and> 400 \<le> status_code r' \<and> status_code r' < 600"
  have r: "raise_for_status r = Inl (HTTPError (status_code r))"
    using a by (simp add: raise_for_status_def)
  have r': "raise_for_status r' = Inl (HTTPError (status_code r'))"
    using a by (simp add: raise_for_status_def)
  have 1: "post_l \<lparr>url = ''https://api-seller.ozon.ru/v2/product/list'',
               headers = [(''Client-Id'', c), (''Api-Key'', t)],
               payload = ProductListPayload ''ALL'' last_id 1000\<rparr> w = (Inr r, w')
        \<longrightarrow> get_product_list post_l last_id c t w = (Inl (HTTPError (status_code r)), w')"
    using r by (simp add: get_product_list_def io_bind_def io_raise_def)
  have 2: "post_i \<lparr>url = ''https://api-seller.ozon.ru/v1/product/import/prices'',
               headers = [(''Client-Id'', c), (''Api-Key'', t)],
               payload = PricesPayload prices\<rparr> w = (Inr r', w')
        \<longrightarrow> update_price post_i prices c t w = (Inl (HTTPError (status_code r')), w')"
    using r' by (simp add: update_price_def io_bind_def io_raise_def)
  have 3: "post_i \<lparr>url = ''https://api-seller.ozon.ru/v1/product/import/stocks'',
               headers = [(''Client-Id'', c), (''Api-Key'', t)],
               payload = StocksPayload stocks\<rparr> w = (Inr r', w')
        \<longrightarrow> update_stocks post_i stocks c t w = (Inl (HTTPError (status_code r')), w')"
    using r' by (simp add: update_stocks_def io_bind_def io_raise_def)
  have 4: "get_product_list post_l (PStr '''') c t w = (Inl e, w')
        \<longrightarrow> get_offer_ids post_l c t w = Some (Inl e, w')"
    using get_offer_ids_loop_first_error [of post_l "PStr ''''" c t w e w' "[]"]
    by (simp add: get_offer_ids_def)
  have 5: "fetches post_l c t k (PStr '''') [] w = (Inl e, w')
        \<and> (\<forall>m<k. \<not> count_matches (fetches post_l c t m (PStr '''') [] w))
        \<longrightarrow> get_offer_ids post_l c t w = Some (Inl e, w')"
  proof
    assume h: "fetches post_l c t k (PStr '''') [] w = (Inl e, w')
        \<and> (\<forall>m<k. \<not> count_matches (fetches post_l c t m (PStr '''') [] w))"
    show "get_offer_ids post_l c t w = Some (Inl e, w')"
      by (rule get_offer_ids_raises_at [OF conjunct1 [OF h] conjunct2 [OF h]])
  qed
  have 6: "f x w = (Inl e, w') \<longrightarrow> for_each f (x # xs) w = (Inl e, w')"
    by simp
  show ?thesis
    by (intro conjI) (rule 1, rule 2, rule 3, rule 4, rule 5, rule 6)
qed

theorem marketplace_calls_raise_on_http_error_witness:
  "get_product_list (status_post 404 \<lparr>result = None\<rparr>) (PStr '''') ''c'' ''t'' 0
     = (Inl (HTTPError 404), 1)
   \<and> update_price (status_post 500 PNone) [] ''c'' ''t'' 0 = (Inl (HTTPError 500), 1)
   \<and> update_stocks (status_post 500 PNone) [] ''c'' ''t'' 0 = (Inl (HTTPError 500), 1)
   \<and> get_offer_ids (status_post 404 \<lparr>result = None\<rparr>) ''c'' ''t'' 0
       = Some (Inl (HTTPError 404), 1)
   \<and> get_offer_ids second_call_fails ''c'' ''t'' 0 = Some (Inl (HTTPError 500), 2)"
proof -
  have s: "400 \<le> status_code \<lparr>status_code = 404, json = Inr \<lparr>result = None\<rparr>, content = ''''\<rparr>
         \<and> status_code \<lparr>status_code = 404, json = Inr \<lparr>result = None\<rparr>, content = ''''\<rparr> < 600
         \<and> 400 \<le> status_code \<lparr>status_code = 500, json = Inr PNone, content = ''''\<rparr>
         \<and> status_code \<lparr>status_code = 500, json = Inr PNone, content = ''''\<rparr> < 600"
    by simp
  note t = marketplace_calls_raise_on_http_error
      [where r = "\<lparr>status_code = 404, json = Inr \<lparr>result = None\<rparr>, content = ''''\<rparr>"
         and r' = "\<lparr>status_code = 500, json = Inr PNone, content = ''''\<rparr>"
         and c = "''c''" and t = "''t''" and w = 0 and w' = 1
         and last_id = "PStr ''''" and post_i = "status_post 500 PNone"
         and prices = "[]" and stocks = "[]", OF s]
  have 1: "get_product_list (status_post 404 \<lparr>result = None\<rparr>) (PStr '''') ''c'' ''t'' 0
             = (Inl (HTTPError 404), 1)"
    using t [where post_l = "status_post 404 \<lparr>result = None\<rparr>", THEN conjunct1]
    by (simp add: status_post_def)
  have 2: "update_price (status_post 500 PNone) [] ''c'' ''t'' 0 = (Inl (HTTPError 500), 1)"
    using t [THEN conjunct2, THEN conjunct1] by (simp add: status_post_def)
  have 3: "update_stocks (status_post 500 PNone) [] ''c'' ''t'' 0 = (Inl (HTTPError 500), 1)"
    using t [THEN conjunct2, THEN conjunct2, THEN conjunct1] by (simp add: status_post_def)
  have 4: "get_offer_ids (status_post 404 \<lparr>result = None\<rparr>) ''c'' ''t'' 0
             = Some (Inl (HTTPError 404), 1)"
    by (rule t [where post_l = "status_post 404 \<lparr>result = None\<rparr>" and e = "HTTPError 404",
                THEN conjunct2, THEN conjunct2, THEN conjunct2, THEN conjunct1, THEN mp, OF 1])
  have 0: "\<not> count_matches (fetches second_call_fails ''c'' ''t'' 0 (PStr '''') [] 0)"
    by (simp only: second_call_fails_fetches) (simp add: count_matches_def)
  have b: "\<forall>m<1. \<not> count_matches (fetches second_call_fails ''c'' ''t'' m (PStr '''') [] 0)"
    using 0 by simp
  have 5: "get_offer_ids second_call_fails ''c'' ''t'' 0 = Some (Inl (HTTPError 500), 2)"
    by (rule marketplace_calls_raise_on_http_error
               [where r = "\<lparr>status_code = 404, json = Inr \<lparr>result = None\<rparr>, content = ''''\<rparr>"
                  and r' = "\<lparr>status_code = 500, json = Inr PNone, content = ''''\<rparr>"
                  and post_l = second_call_fails and c = "''c''" and t = "''t''" and w = 0
                  and w' = 2 and k = 1 and e = "HTTPError 500", OF s,
                THEN conjunct2, THEN conjunct2, THEN conjunct2, THEN conjunct2, THEN conjunct1,
                THEN mp, OF conjI [OF second_call_fails_fetches(2) b]])
  show ?thesis
    by (intro conjI) (rule 1, rule 2, rule 3, rule 4, rule 5)
qed

section \<open>How \<^verbatim>\<open>get_offer_ids\<close> ends\<close>

text \<open>
  Claim C2, as amended. A call of \<^verbatim>\<open>get_offer_ids\<close> ends in one of three ways. It returns
  a list exactly when, after some page fetch, the number of items accumulated equals the
  total that page reports (no earlier call having raised); it returns at the first such
  fetch, with the \<^verbatim>\<open>offer_id\<close> of every accumulated item in the order of discovery and
  with no further call. It ends with an exception exactly when a fetch raises before any
  count has matched. It never ends exactly when every fetch succeeds and no count ever
  equals the total reported. For the mock that serves pages of 2 and 3 items with total 5
  it returns the five ids after exactly two calls; for the mock whose pages of 2 items
  always report total 3 it never ends.
\<close>

theorem get_offer_ids_stops_when_count_matches:
  "((\<exists>ids w'. get_offer_ids post c t w = Some (Inr ids, w'))
      \<longleftrightarrow> (\<exists>n. count_matches (fetches post c t n (PStr '''') [] w)))
   \<and> (count_matches (fetches post c t n (PStr '''') [] w)
        \<and> (\<forall>m<n. \<not> count_matches (fetches post c t m (PStr '''') [] w))
      \<longrightarrow> get_offer_ids post c t w
            = Some (Inr (map (\<lambda>product. dict_get product ''offer_id'')
                           (accumulated (fetches post c t n (PStr '''') [] w))),
                    snd (fetches post c t n (PStr '''') [] w)))
   \<and> ((\<exists>e w'. get_offer_ids post c t w = Some (Inl e, w'))
      \<longleftrightarrow> (\<exists>n. \<not> fetch_ok (fetches post c t n (PStr '''') [] w)
               \<and> (\<forall>m<n. \<not> count_matches (fetches post c t m (PStr '''') [] w))))
   \<and> (get_offer_ids post c t w = None
      \<longleftrightarrow> (\<forall>n. fetch_ok (fetches post c t n (PStr '''') [] w)
               \<and> \<not> count_matches (fetches post c t n (PStr '''') [] w)))
   \<and> get_offer_ids two_page_post c t 0
       = Some (Inr [PStr ''a1'', PStr ''a2'', PStr ''b1'', PStr ''b2'', PStr ''b3''], 2)
   \<and> get_offer_ids overshoot_post c t 0 = None"
proof -
  have 1: "(\<exists>ids w'. get_offer_ids post c t w = Some (Inr ids, w'))
      \<longleftrightarrow> (\<exists>n. count_matches (fetches post c t n (PStr '''') [] w))"
    by (rule get_offer_ids_returns_iff)
  have 2: "count_matches (fetches post c t n (PStr '''') [] w)
        \<and> (\<forall>m<n. \<not> count_matches (fetches post c t m (PStr '''') [] w))
      \<longrightarrow> get_offer_ids post c t w
            = Some (Inr (map (\<lambda>product. dict_get product ''offer_id'')
                           (accumulated (fetches post c t n (PStr '''') [] w))),
                    snd (fetches post c t n (PStr '''') [] w))"
  proof
    assume h: "count_matches (fetches post c t n (PStr '''') [] w)
        \<and> (\<forall>m<n. \<not> count_matches (fetches post c t m (PStr '''') [] w))"
    show "get_offer_ids post c t w
            = Some (Inr (map (\<lambda>product. dict_get product ''offer_id'')
                           (accumulated (fetches post c t n (PStr '''') [] w))),
                    snd (fetches post c t n (PStr '''') [] w))"
      by (rule get_offer_ids_first_match [OF conjunct1 [OF h] conjunct2 [OF h]])
  qed
  have 3: "(\<exists>e w'. get_offer_ids post c t w = Some (Inl e, w'))
      \<longleftrightarrow> (\<exists>n. \<not> fetch_ok (fetches post c t n (PStr '''') [] w)
               \<and> (\<forall>m<n. \<not> count_matches (fetches post c t m (PStr '''') [] w)))"
    by (rule get_offer_ids_raises_iff)
  have 4: "get_offer_ids post c t w = None
      \<longleftrightarrow> (\<forall>n. fetch_ok (fetches post c t n (PStr '''') [] w)
               \<and> \<not> count_matches (fetches post c t n (PStr '''') [] w))"
    unfolding get_offer_ids_None_iff loop_None_iff ..
  show ?thesis
    by (intro conjI) (rule 1, rule 2, rule 3, rule 4, rule two_page_run, rule overshoot_run)
qed

theorem get_offer_ids_stops_when_count_matches_witness:
  "count_matches (fetches two_page_post ''c'' ''t'' 1 (PStr '''') [] 0)
   \<and> \<not> count_matches (fetches two_page_post ''c'' ''t'' 0 (PStr '''') [] 0)
   \<and> get_offer_ids two_page_post ''c'' ''t'' 0
       = Some (Inr (map (\<lambda>product. dict_get product ''offer_id'')
                      (accumulated (fetches two_page_post ''c'' ''t'' 1 (PStr '''') [] 0))),
               snd (fetches two_page_post ''c'' ''t'' 1 (PStr '''') [] 0))
   \<and> snd (fetches two_page_post ''c'' ''t'' 1 (PStr '''') [] 0) = 2
   \<and> length (accumulated (fetches two_page_post ''c'' ''t'' 1 (PStr '''') [] 0)) = 5"
proof -
  have 1: "count_matches (fetches two_page_post ''c'' ''t'' 1 (PStr '''') [] 0)"
    by (simp only: two_page_fetches) (simp add: count_matches_def)
  have 0: "\<not> count_matches (fetches two_page_post ''c'' ''t'' 0 (PStr '''') [] 0)"
    by (simp only: two_page_fetches) (simp add: count_matches_def)
  have b: "\<forall>m<1. \<not> count_matches (fetches two_page_post ''c'' ''t'' m (PStr '''') [] 0)"
    using 0 by simp
  have s: "snd (fetches two_page_post ''c'' ''t'' 1 (PStr '''') [] 0) = 2"
    by (simp only: two_page_fetches) simp
  have l: "length (accumulated (fetches two_page_post ''c'' ''t'' 1 (PStr '''') [] 0)) = 5"
    by (simp only: two_page_fetches) (simp add: accumulated_def)
  have g: "get_offer_ids two_page_post ''c'' ''t'' 0
       = Some (Inr (map (\<lambda>product. dict_get product ''offer_id'')
                      (accumulated (fetches two_page_post ''c'' ''t'' 1 (PStr '''') [] 0))),
               snd (fetches two_page_post ''c'' ''t'' 1 (PStr '''') [] 0))"
    by (rule get_offer_ids_stops_when_count_matches
               [of two_page_post "''c''" "''t''" 0 1,
                THEN conjunct2, THEN conjunct1, THEN mp, OF conjI [OF 1 b]])
  show ?thesis
    by (intro conjI) (rule 1, rule 0, rule g, rule s, rule l)
qed

text \<open>
  The claim as it was stated lets the call end only when a count matches. When the
  marketplace answers the first request with status 404 no count ever matches, and the
  call ends all the same, after one request, with the exception.
\<close>

theorem get_offer_ids_ends_on_http_error:
  "get_offer_ids (status_post 404 \<lparr>result = None\<rparr>) ''c'' ''t'' 0 = Some (Inl (HTTPError 404), 1)
   \<and> (\<forall>n. \<not> count_matches
             (fetches (status_post 404 \<lparr>result = None\<rparr>) ''c'' ''t'' n (PStr '''') [] 0))"
proof -
  have f: "\<And>n. fetches (status_post 404 \<lparr>result = None\<rparr>) ''c'' ''t'' n (PStr '''') [] 0
             = (Inl (HTTPError 404), 1)"
    using status_post_fetches [of 404 "\<lparr>result = None\<rparr>" "''c''" "''t''" _ "PStr ''''" "[]" 0]
    by simp
  have 1: "get_offer_ids (status_post 404 \<lparr>result = None\<rparr>) ''c'' ''t'' 0
             = Some (Inl (HTTPError 404), 1)"
    by (rule get_offer_ids_raises_at [OF f [of 0]]) simp
  have 2: "\<forall>n. \<not> count_matches
             (fetches (status_post 404 \<lparr>result = None\<rparr>) ''c'' ''t'' n (PStr '''') [] 0)"
    by (simp only: f) (simp add: count_matches_def)
  show ?thesis by (intro conjI) (rule 1, rule 2)
qed

section \<open>The entry point: what leaves \<^verbatim>\<open>main\<close>\<close>











end
